theory Spec2Isabelle
  imports Main "HOL-Library.Word"
begin

section \<open>JavaScript values\<close>

text \<open>
  The component factory \<^verbatim>\<open>createComponent\<close> of \<^verbatim>\<open>src/index.ts\<close> works on untyped
  JavaScript values at run time, so the embedding has one type of values.

  \<^item> A string is the list of its UTF-16 code units.
  \<^item> A number is modelled by an integer (the safe integers); \<^verbatim>\<open>NaN\<close>, infinities and
    fractions are outside the model.
  \<^item> An object is the list of its own enumerable string-keyed properties, in the order
    in which they are enumerated. An object the program builds lists its properties in
    insertion order; the statements below speak of lookups and key sets, never of the
    order of a built object. Objects are plain: nothing is inherited, and no key has a
    meaning of its own on assignment (as \<^verbatim>\<open>__proto__\<close> has).
  \<^item> A function is a reference \<open>VFn n\<close>; what it computes is looked up in a function
    environment, which maps the reference to a function from the argument to a result
    or a thrown error. Functions are taken to be pure and terminating.
\<close>

type_synonym char16 = "16 word"
type_synonym jsstring = "char16 list"

datatype jsval =
    VUndefined
  | VNull
  | VBool bool
  | VNum int
  | VStr jsstring
  | VArr "jsval list"
  | VObj "(jsstring \<times> jsval) list"
  | VFn nat

type_synonym obj = "(jsstring \<times> jsval) list"

datatype error = TypeError | Thrown jsval

type_synonym fenv = "nat \<Rightarrow> jsval \<Rightarrow> error + jsval"

definition js :: "string \<Rightarrow> jsstring" where
  \<comment> \<open>an ASCII literal as a JavaScript string\<close>
  "js s = map of_char s"

definition bind_err :: "error + 'a \<Rightarrow> ('a \<Rightarrow> error + 'b) \<Rightarrow> error + 'b" where
  \<comment> \<open>sequencing: a thrown error leaves the rest undone\<close>
  "bind_err m f = (case m of Inl e \<Rightarrow> Inl e | Inr x \<Rightarrow> f x)"

fun typeof :: "jsval \<Rightarrow> string" where
  "typeof VUndefined = ''undefined''"
| "typeof VNull = ''object''"
| "typeof (VBool b) = ''boolean''"
| "typeof (VNum n) = ''number''"
| "typeof (VStr s) = ''string''"
| "typeof (VArr xs) = ''object''"
| "typeof (VObj kvs) = ''object''"
| "typeof (VFn f) = ''function''"

fun truthy :: "jsval \<Rightarrow> bool" where
  "truthy VUndefined = False"
| "truthy VNull = False"
| "truthy (VBool b) = b"
| "truthy (VNum n) = (n \<noteq> 0)"
| "truthy (VStr s) = (s \<noteq> [])"
| "truthy (VArr xs) = True"
| "truthy (VObj kvs) = True"
| "truthy (VFn f) = True"

subsection \<open>Objects\<close>

definition obj_keys :: "obj \<Rightarrow> jsstring list" where
  \<comment> \<open>\<^verbatim>\<open>Object.keys(o)\<close>, also the keys a \<^verbatim>\<open>for ... in\<close> loop visits\<close>
  "obj_keys kvs = map fst kvs"

definition obj_get :: "obj \<Rightarrow> jsstring \<Rightarrow> jsval" where
  \<comment> \<open>\<^verbatim>\<open>o[k]\<close> on a plain object: \<^verbatim>\<open>undefined\<close> for a missing key\<close>
  "obj_get kvs k = (case map_of kvs k of None \<Rightarrow> VUndefined | Some v \<Rightarrow> v)"

definition obj_put :: "jsstring \<Rightarrow> jsval \<Rightarrow> obj \<Rightarrow> obj" where
  \<comment> \<open>\<^verbatim>\<open>o[k] = v\<close>: an existing key keeps its place, a new key goes last\<close>
  "obj_put k v kvs =
     (if k \<in> set (obj_keys kvs)
      then map (\<lambda>(k', v'). if k' = k then (k', v) else (k', v')) kvs
      else kvs @ [(k, v)])"

function digits :: "nat \<Rightarrow> jsstring" where
  "digits n = (if n < 10 then [of_nat (48 + n)] else digits (n div 10) @ [of_nat (48 + n mod 10)])"
  by pat_completeness auto
termination
  by (relation "measure id") auto

definition number_to_string :: "int \<Rightarrow> jsstring" where
  \<comment> \<open>\<^verbatim>\<open>'' + n\<close> for an integer \<open>n\<close>\<close>
  "number_to_string n = (if n < 0 then 0x2D # digits (nat (- n)) else digits (nat n))"

fun index_entries :: "nat \<Rightarrow> jsval list \<Rightarrow> obj" where
  "index_entries i [] = []"
| "index_entries i (v # vs) = (digits i, v) # index_entries (Suc i) vs"

fun own_entries :: "jsval \<Rightarrow> obj" where
  \<comment> \<open>the own enumerable properties that an object spread \<^verbatim>\<open>{...v}\<close> copies\<close>
  "own_entries (VObj kvs) = kvs"
| "own_entries (VArr xs) = index_entries 0 xs"
| "own_entries (VStr s) = index_entries 0 (map (\<lambda>c. VStr [c]) s)"
| "own_entries v = []"

fun copy_props :: "obj \<Rightarrow> obj \<Rightarrow> jsstring list \<Rightarrow> obj" where
  "copy_props target src [] = target"
| "copy_props target src (k # ks) = copy_props (obj_put k (obj_get src k) target) src ks"

definition spread :: "obj \<Rightarrow> jsval \<Rightarrow> obj" where
  \<comment> \<open>one \<^verbatim>\<open>...v\<close> of an object literal: every own key of \<open>v\<close> is read and set on the target\<close>
  "spread target v = copy_props target (own_entries v) (obj_keys (own_entries v))"

definition obj_rest :: "obj \<Rightarrow> jsstring list \<Rightarrow> obj" where
  \<comment> \<open>\<^verbatim>\<open>const { a, b, ...rest } = o\<close>: a fresh object without the named keys\<close>
  "obj_rest kvs excluded = copy_props [] kvs (filter (\<lambda>k. k \<notin> set excluded) (obj_keys kvs))"

fun get_member :: "jsval \<Rightarrow> jsstring \<Rightarrow> error + jsval" where
  \<comment> \<open>\<^verbatim>\<open>v.k\<close> for the keys \<^verbatim>\<open>base\<close>, \<^verbatim>\<open>classes\<close> and \<^verbatim>\<open>css\<close>, which no built-in prototype
      defines: reading a property of \<^verbatim>\<open>null\<close> or \<^verbatim>\<open>undefined\<close> throws\<close>
  "get_member VUndefined k = Inl TypeError"
| "get_member VNull k = Inl TypeError"
| "get_member (VObj kvs) k = Inr (obj_get kvs k)"
| "get_member v k = Inr VUndefined"

definition opt_member :: "jsval \<Rightarrow> jsstring \<Rightarrow> error + jsval" where
  \<comment> \<open>optional chaining \<^verbatim>\<open>v?.k\<close>\<close>
  "opt_member v k = (if v = VUndefined \<or> v = VNull then Inr VUndefined else get_member v k)"

fun call :: "fenv \<Rightarrow> jsval \<Rightarrow> jsval \<Rightarrow> error + jsval" where
  \<comment> \<open>\<^verbatim>\<open>f(arg)\<close>: calling what is not a function throws\<close>
  "call fe (VFn f) arg = fe f arg"
| "call fe v arg = Inl TypeError"

section \<open>The class name joiner\<close>

text \<open>
  Modelled from the spec: the class-name-joining collaborator \<^verbatim>\<open>clsx\<close>, an external
  package that is not part of the sources. The spec gives its contract (a variadic list
  of strings, falsy values and nested lists, returned as one space-joined string); the
  definition follows the package's algorithm, which meets that contract: a string or a
  number contributes itself, an array its truthy entries, an object the keys of its
  truthy properties, anything else nothing, and a space is put before a contribution
  only when something precedes it.
\<close>

definition append_class :: "jsstring \<Rightarrow> jsstring \<Rightarrow> jsstring" where
  \<comment> \<open>\<^verbatim>\<open>str && (str += ' '); str += y\<close>\<close>
  "append_class str y = (if str \<noteq> [] then str @ [0x20] @ y else y)"

definition add_value :: "jsstring \<Rightarrow> jsstring \<Rightarrow> jsstring" where
  \<comment> \<open>\<^verbatim>\<open>if (y = toVal(...)) { str && (str += ' '); str += y }\<close>, given \<open>y\<close>\<close>
  "add_value str y = (if y \<noteq> [] then append_class str y else str)"

fun toVal :: "jsval \<Rightarrow> jsstring" where
  \<comment> \<open>Modelled from the spec: the contribution of one argument of the external joiner
      \<^verbatim>\<open>clsx\<close>, which the caller has found truthy\<close>
  "toVal (VStr s) = s"
| "toVal (VNum n) = number_to_string n"
| "toVal (VArr xs) = foldl add_value [] (map toVal (filter truthy xs))"
| "toVal (VObj kvs) = foldl append_class [] (map fst (filter (\<lambda>(k, v). truthy v) kvs))"
| "toVal v = []"

definition clsx :: "jsval list \<Rightarrow> jsstring" where
  \<comment> \<open>Modelled from the spec: the external joiner \<^verbatim>\<open>clsx(...args)\<close>, which treats its
      argument list as \<^verbatim>\<open>toVal\<close> treats an array\<close>
  "clsx args = foldl add_value [] (map toVal (filter truthy args))"

section \<open>The helpers of \<^verbatim>\<open>src/index.ts\<close>\<close>

definition is_space :: "char16 \<Rightarrow> bool" where
  \<comment> \<open>the code units matched by \<^verbatim>\<open>\s\<close>, which are also those removed by \<^verbatim>\<open>trim()\<close>\<close>
  "is_space c =
     (c = 0x09 \<or> c = 0x0A \<or> c = 0x0B \<or> c = 0x0C \<or> c = 0x0D \<or> c = 0x20 \<or> c = 0xA0
      \<or> c = 0x1680 \<or> (0x2000 \<le> c \<and> c \<le> 0x200A) \<or> c = 0x2028 \<or> c = 0x2029
      \<or> c = 0x202F \<or> c = 0x205F \<or> c = 0x3000 \<or> c = 0xFEFF)"

function replace_spaces :: "jsstring \<Rightarrow> jsstring" where
  \<comment> \<open>\<^verbatim>\<open>s.replace(/\s+/g, ' ')\<close>: every maximal run of white space becomes one space\<close>
  "replace_spaces [] = []"
| "replace_spaces (c # cs) =
     (if is_space c then 0x20 # replace_spaces (dropWhile is_space cs)
      else c # replace_spaces cs)"
  by pat_completeness auto
termination
  by (relation "measure length") (auto simp: length_dropWhile_le less_Suc_eq_le)

definition trim :: "jsstring \<Rightarrow> jsstring" where
  "trim s = rev (dropWhile is_space (rev (dropWhile is_space s)))"

definition cleanClassName :: "jsstring \<Rightarrow> jsstring" where
  "cleanClassName className = trim (replace_spaces className)"

definition is_custom :: "jsstring \<Rightarrow> bool" where
  \<comment> \<open>\<^verbatim>\<open>key.startsWith('$')\<close>\<close>
  "is_custom key = (take 1 key = [0x24])"

fun omit_loop :: "obj \<Rightarrow> jsval list \<Rightarrow> obj \<Rightarrow> jsstring list \<Rightarrow> obj" where
  "omit_loop props customProps domProps [] = domProps"
| "omit_loop props customProps domProps (key # keys) =
     omit_loop props customProps
       (if VStr key \<notin> set customProps then obj_put key (obj_get props key) domProps
        else domProps)
       keys"

definition omitCustomProps :: "obj \<Rightarrow> jsval list \<Rightarrow> obj" where
  "omitCustomProps props customProps = omit_loop props customProps [] (obj_keys props)"

section \<open>The component\<close>

text \<open>
  \<^verbatim>\<open>createComponent(tag, options, css)\<close> returns a component whose render function
  takes the props and the forwarded ref. Every intermediate value of the render function
  goes through \<^verbatim>\<open>useMemo\<close>, so the render function reads and updates the hook state
  of the mounted instance: one cell for each \<^verbatim>\<open>useMemo\<close>, holding the dependencies
  and the value of the last computation. The host compares dependencies by identity
  (\<^verbatim>\<open>Object.is\<close>); identity is the parameter \<open>same\<close> of the model.

  The result of a render is the call \<^verbatim>\<open>createElement(tag, config)\<close>: the tag and the
  object literal passed as its second argument.
\<close>

type_synonym cell = "(jsval list \<times> jsval) option"

record hooks =
  h_baseClass :: cell
  h_dynamicClasses :: cell
  h_dynamicCss :: cell
  h_classes :: cell
  h_resolvedCss :: cell
  h_mergedStyles :: cell
  h_customProps :: cell
  h_domProps :: cell

record element =
  el_type :: jsstring
  el_config :: obj

definition mount :: hooks where
  \<comment> \<open>the hook state before the first render\<close>
  "mount = \<lparr>h_baseClass = None, h_dynamicClasses = None, h_dynamicCss = None,
     h_classes = None, h_resolvedCss = None, h_mergedStyles = None,
     h_customProps = None, h_domProps = None\<rparr>"

definition areHookInputsEqual :: "(jsval \<Rightarrow> jsval \<Rightarrow> bool) \<Rightarrow> jsval list \<Rightarrow> jsval list \<Rightarrow> bool" where
  "areHookInputsEqual same nextDeps prevDeps = list_all2 same nextDeps prevDeps"

definition useMemo ::
  "(jsval \<Rightarrow> jsval \<Rightarrow> bool) \<Rightarrow> cell \<Rightarrow> error + jsval \<Rightarrow> jsval list \<Rightarrow> error + jsval \<times> cell" where
  \<comment> \<open>the value of the callback is the third argument; it is used only when the cell is
      empty or a dependency has changed\<close>
  "useMemo same c compute deps =
     (case c of
        Some (prevDeps, v) \<Rightarrow>
          if areHookInputsEqual same deps prevDeps then Inr (v, c)
          else bind_err compute (\<lambda>v'. Inr (v', Some (deps, v')))
      | None \<Rightarrow> bind_err compute (\<lambda>v'. Inr (v', Some (deps, v'))))"

definition baseClass_of :: "jsval \<Rightarrow> error + jsval" where
  "baseClass_of options =
     (if typeof options = ''string'' then Inr options
      else if typeof options = ''object'' then get_member options (js ''base'')
      else Inr VUndefined)"

definition dynamicClasses_of :: "jsval \<Rightarrow> error + jsval" where
  "dynamicClasses_of options =
     (if typeof options = ''object'' then opt_member options (js ''classes'')
      else if typeof options = ''function'' then Inr options
      else Inr VUndefined)"

definition dynamicCss_of :: "jsval \<Rightarrow> jsval \<Rightarrow> error + jsval" where
  "dynamicCss_of options css =
     (if typeof options = ''object'' then opt_member options (js ''css'')
      else Inr css)"

definition dynamic_tokens :: "fenv \<Rightarrow> jsval \<Rightarrow> obj \<Rightarrow> error + jsval" where
  \<comment> \<open>\<^verbatim>\<open>dynamicClasses ? dynamicClasses(props) : []\<close>\<close>
  "dynamic_tokens fe dynamicClasses props =
     (if truthy dynamicClasses then call fe dynamicClasses (VObj props) else Inr (VArr []))"

definition classes_of :: "fenv \<Rightarrow> jsval \<Rightarrow> jsval \<Rightarrow> jsval \<Rightarrow> obj \<Rightarrow> error + jsval" where
  "classes_of fe baseClass dynamicClasses className props =
     bind_err (dynamic_tokens fe dynamicClasses props)
       (\<lambda>tokens. Inr (VStr (cleanClassName (clsx [baseClass, tokens, className]))))"

definition resolvedCss_of :: "fenv \<Rightarrow> jsval \<Rightarrow> obj \<Rightarrow> error + jsval" where
  "resolvedCss_of fe dynamicCss props =
     (if typeof dynamicCss = ''function'' then call fe dynamicCss (VObj props)
      else Inr dynamicCss)"

definition mergedStyles_of :: "jsval \<Rightarrow> jsval \<Rightarrow> jsval" where
  \<comment> \<open>\<^verbatim>\<open>{ ...resolvedCss, ...style }\<close>\<close>
  "mergedStyles_of resolvedCss style = VObj (spread (spread [] resolvedCss) style)"

definition customProps_of :: "obj \<Rightarrow> jsval" where
  \<comment> \<open>every key of \<^verbatim>\<open>Object.keys\<close> is a string, so only \<^verbatim>\<open>startsWith\<close> decides\<close>
  "customProps_of props = VArr (map VStr (filter is_custom (obj_keys props)))"

fun array_elements :: "jsval \<Rightarrow> jsval list" where
  \<comment> \<open>the elements that \<^verbatim>\<open>customProps.includes\<close> searches; \<^verbatim>\<open>customProps\<close> is always an array\<close>
  "array_elements (VArr xs) = xs"
| "array_elements v = []"

definition domProps_of :: "obj \<Rightarrow> jsval \<Rightarrow> jsval" where
  "domProps_of restProps customProps =
     VObj (omitCustomProps restProps (array_elements customProps))"

definition createElement :: "jsstring \<Rightarrow> obj \<Rightarrow> element" where
  "createElement tag config = \<lparr>el_type = tag, el_config = config\<rparr>"

definition RenderComponent ::
  "(jsval \<Rightarrow> jsval \<Rightarrow> bool) \<Rightarrow> fenv \<Rightarrow> jsstring \<Rightarrow> jsval \<Rightarrow> jsval \<Rightarrow> hooks \<Rightarrow> obj \<Rightarrow> jsval
     \<Rightarrow> error + element \<times> hooks" where
  "RenderComponent same fe tag options css h props ref =
     (let className = obj_get props (js ''className'');
          style = obj_get props (js ''style'');
          restProps = obj_rest props [js ''className'', js ''style'']
      in
      bind_err (useMemo same (h_baseClass h) (baseClass_of options) [options])
        (\<lambda>(baseClass, c1).
      bind_err (useMemo same (h_dynamicClasses h) (dynamicClasses_of options) [options])
        (\<lambda>(dynamicClasses, c2).
      bind_err (useMemo same (h_dynamicCss h) (dynamicCss_of options css) [options, css])
        (\<lambda>(dynamicCss, c3).
      bind_err (useMemo same (h_classes h)
                  (classes_of fe baseClass dynamicClasses className props)
                  [baseClass, dynamicClasses, className, VObj props])
        (\<lambda>(classes, c4).
      bind_err (useMemo same (h_resolvedCss h) (resolvedCss_of fe dynamicCss props)
                  [dynamicCss, VObj props])
        (\<lambda>(resolvedCss, c5).
      bind_err (useMemo same (h_mergedStyles h) (Inr (mergedStyles_of resolvedCss style))
                  [resolvedCss, style])
        (\<lambda>(mergedStyles, c6).
      bind_err (useMemo same (h_customProps h) (Inr (customProps_of props)) [VObj props])
        (\<lambda>(customProps, c7).
      bind_err (useMemo same (h_domProps h) (Inr (domProps_of restProps customProps))
                  [VObj restProps, customProps])
        (\<lambda>(domProps, c8).
      Inr (createElement tag
             (obj_put (js ''ref'') ref
               (obj_put (js ''style'') mergedStyles
                 (obj_put (js ''className'') classes
                   (spread [] domProps)))),
           \<lparr>h_baseClass = c1, h_dynamicClasses = c2, h_dynamicCss = c3, h_classes = c4,
            h_resolvedCss = c5, h_mergedStyles = c6, h_customProps = c7,
            h_domProps = c8\<rparr>))))))))))"

definition render :: "fenv \<Rightarrow> jsstring \<Rightarrow> jsval \<Rightarrow> jsval \<Rightarrow> obj \<Rightarrow> jsval \<Rightarrow> error + element" where
  \<comment> \<open>the first render of a mounted instance; no cell is filled, so identity plays no role\<close>
  "render fe tag options css props ref =
     map_sum id fst (RenderComponent (\<lambda>a b. False) fe tag options css mount props ref)"

inductive reachable ::
  "(jsval \<Rightarrow> jsval \<Rightarrow> bool) \<Rightarrow> fenv \<Rightarrow> jsstring \<Rightarrow> jsval \<Rightarrow> jsval \<Rightarrow> hooks \<Rightarrow> bool"
  for same fe tag options css where
  \<comment> \<open>the hook states of an instance of one component after any number of renders\<close>
    reachable_mount: "reachable same fe tag options css mount"
  | reachable_render:
      "reachable same fe tag options css h \<Longrightarrow>
       RenderComponent same fe tag options css h props ref = Inr (el, h') \<Longrightarrow>
       reachable same fe tag options css h'"

section \<open>What the spec says of the class name\<close>

text \<open>
  The spec describes the final class name in words: concatenate, in order, the base
  class, the dynamic class tokens and the incoming \<^verbatim>\<open>className\<close>; join with single
  spaces; collapse every run of white space to one space; trim leading and trailing
  white space; falsy and empty entries contribute nothing. The definitions of this
  section follow those words and use nothing of the code but the set of white-space
  characters; they are compared with the code below.
\<close>

fun class_token :: "jsval \<Rightarrow> bool" where
  \<comment> \<open>the entries the spec speaks of: a string, or a falsy value\<close>
  "class_token (VStr s) = True"
| "class_token v = (\<not> truthy v)"

fun token_list :: "jsval \<Rightarrow> jsval list" where
  \<comment> \<open>the tokens a dynamic class source yields: the entries of a list, or one string\<close>
  "token_list (VArr ts) = ts"
| "token_list v = [v]"

fun spec_entry :: "jsval \<Rightarrow> jsstring list" where
  \<comment> \<open>what an entry contributes: itself when it is a non-empty string, else nothing\<close>
  "spec_entry (VStr s) = (if s = [] then [] else [s])"
| "spec_entry v = []"

fun join_spaces :: "jsstring list \<Rightarrow> jsstring" where
  "join_spaces [] = []"
| "join_spaces [x] = x"
| "join_spaces (x # y # zs) = x @ [0x20] @ join_spaces (y # zs)"

fun collapse_runs :: "jsstring \<Rightarrow> jsstring" where
  \<comment> \<open>a white-space character followed by another is dropped, the last of a run becomes a space\<close>
  "collapse_runs (c # d # cs) =
     (if is_space c \<and> is_space d then collapse_runs (d # cs)
      else (if is_space c then 0x20 else c) # collapse_runs (d # cs))"
| "collapse_runs [c] = [if is_space c then 0x20 else c]"
| "collapse_runs [] = []"

fun strip_leading :: "jsstring \<Rightarrow> jsstring" where
  \<comment> \<open>white space at the start is removed, up to the first other character\<close>
  "strip_leading [] = []"
| "strip_leading (c # cs) = (if is_space c then strip_leading cs else c # cs)"

fun strip_trailing :: "jsstring \<Rightarrow> jsstring" where
  \<comment> \<open>a white-space character goes when nothing but white space follows it\<close>
  "strip_trailing [] = []"
| "strip_trailing (c # cs) =
     (if is_space c \<and> strip_trailing cs = [] then [] else c # strip_trailing cs)"

definition spec_trim :: "jsstring \<Rightarrow> jsstring" where
  "spec_trim s = strip_trailing (strip_leading s)"

definition spec_class_name :: "jsval \<Rightarrow> jsval list \<Rightarrow> jsval \<Rightarrow> jsstring" where
  "spec_class_name base tokens className =
     spec_trim (collapse_runs
       (join_spaces (concat (map spec_entry (base # tokens @ [className])))))"

section \<open>Auxiliary definitions\<close>

text \<open>
  The object literal of the \<^verbatim>\<open>createElement\<close> call, as a function of the values that go
  into it when the DOM props are computed from the props of the same render.
\<close>

definition final_config :: "jsval \<Rightarrow> jsval \<Rightarrow> jsval \<Rightarrow> obj \<Rightarrow> obj" where
  "final_config ref mergedStyles classes props =
     obj_put (js ''ref'') ref
       (obj_put (js ''style'') mergedStyles
         (obj_put (js ''className'') classes
           (spread [] (domProps_of (obj_rest props [js ''className'', js ''style''])
              (customProps_of props)))))"

fun no_space_run :: "jsstring \<Rightarrow> bool" where
  \<comment> \<open>no two adjacent white-space characters\<close>
  "no_space_run (a # b # cs) = (\<not> (is_space a \<and> is_space b) \<and> no_space_run (b # cs))"
| "no_space_run cs = True"

subsection \<open>The invariant of the memo cells\<close>

text \<open>
  Each \<^verbatim>\<open>useMemo\<close> callback reads only variables that are listed in its dependency
  array, so its value is a function of that array. A cell is in order when the value it
  holds is the one its callback gives on the dependencies it holds.
\<close>

definition cell_ok :: "(jsval list \<Rightarrow> error + jsval) \<Rightarrow> cell \<Rightarrow> bool" where
  "cell_ok recompute c = (case c of None \<Rightarrow> True | Some (deps, v) \<Rightarrow> recompute deps = Inr v)"

definition next_cell :: "(jsval \<Rightarrow> jsval \<Rightarrow> bool) \<Rightarrow> cell \<Rightarrow> jsval list \<Rightarrow> jsval \<Rightarrow> cell" where
  \<comment> \<open>the cell after a \<^verbatim>\<open>useMemo\<close> whose callback gives \<open>v\<close>\<close>
  "next_cell same c deps v =
     (case c of
        Some (prevDeps, v') \<Rightarrow> if areHookInputsEqual same deps prevDeps then c else Some (deps, v)
      | None \<Rightarrow> Some (deps, v))"

fun baseClass_from :: "jsval list \<Rightarrow> error + jsval" where
  "baseClass_from [options] = baseClass_of options"
| "baseClass_from deps = Inl TypeError"

fun dynamicClasses_from :: "jsval list \<Rightarrow> error + jsval" where
  "dynamicClasses_from [options] = dynamicClasses_of options"
| "dynamicClasses_from deps = Inl TypeError"

fun dynamicCss_from :: "jsval list \<Rightarrow> error + jsval" where
  "dynamicCss_from [options, css] = dynamicCss_of options css"
| "dynamicCss_from deps = Inl TypeError"

fun classes_from :: "fenv \<Rightarrow> jsval list \<Rightarrow> error + jsval" where
  "classes_from fe [baseClass, dynamicClasses, className, VObj props] =
     classes_of fe baseClass dynamicClasses className props"
| "classes_from fe deps = Inl TypeError"

fun resolvedCss_from :: "fenv \<Rightarrow> jsval list \<Rightarrow> error + jsval" where
  "resolvedCss_from fe [dynamicCss, VObj props] = resolvedCss_of fe dynamicCss props"
| "resolvedCss_from fe deps = Inl TypeError"

fun mergedStyles_from :: "jsval list \<Rightarrow> error + jsval" where
  "mergedStyles_from [resolvedCss, style] = Inr (mergedStyles_of resolvedCss style)"
| "mergedStyles_from deps = Inl TypeError"

fun customProps_from :: "jsval list \<Rightarrow> error + jsval" where
  "customProps_from [VObj props] = Inr (customProps_of props)"
| "customProps_from deps = Inl TypeError"

fun domProps_from :: "jsval list \<Rightarrow> error + jsval" where
  "domProps_from [VObj restProps, customProps] = Inr (domProps_of restProps customProps)"
| "domProps_from deps = Inl TypeError"

definition coherent :: "fenv \<Rightarrow> hooks \<Rightarrow> bool" where
  "coherent fe h =
     (cell_ok baseClass_from (h_baseClass h)
      \<and> cell_ok dynamicClasses_from (h_dynamicClasses h)
      \<and> cell_ok dynamicCss_from (h_dynamicCss h)
      \<and> cell_ok (classes_from fe) (h_classes h)
      \<and> cell_ok (resolvedCss_from fe) (h_resolvedCss h)
      \<and> cell_ok mergedStyles_from (h_mergedStyles h)
      \<and> cell_ok customProps_from (h_customProps h)
      \<and> cell_ok domProps_from (h_domProps h))"

subsection \<open>Concrete inputs\<close>

text \<open>The inputs on which the statements below are evaluated.\<close>

definition no_functions :: fenv where
  \<comment> \<open>an environment for inputs that hold no function\<close>
  "no_functions f arg = Inl TypeError"

definition example_props :: obj where
  \<comment> \<open>\<^verbatim>\<open>{ $active: true, id: "main", className: " wide ", style: { color: "blue" } }\<close>\<close>
  "example_props =
     [(js ''$active'', VBool True), (js ''id'', VStr (js ''main'')),
      (js ''className'', VStr (js '' wide '')),
      (js ''style'', VObj [(js ''color'', VStr (js ''blue''))])]"

definition spaced_props :: obj where
  \<comment> \<open>a \<^verbatim>\<open>className\<close> of \<^verbatim>\<open>w\<close> and \<^verbatim>\<open>x\<close> among a space, a tab, a no-break space, a line
      feed and an ideographic space\<close>
  "spaced_props = [(js ''className'', VStr [0x20, 0x09, 0x77, 0xA0, 0x0A, 0x78, 0x3000])]"

definition styled_options :: jsval where
  \<comment> \<open>\<^verbatim>\<open>{ css: { color: "red", margin: 0 } }\<close>\<close>
  "styled_options =
     VObj [(js ''css'', VObj [(js ''color'', VStr (js ''red'')), (js ''margin'', VNum 0)])]"

definition plain_props :: obj where
  \<comment> \<open>\<^verbatim>\<open>{ id: "main", $tone: "dark", tabIndex: 0 }\<close>\<close>
  "plain_props =
     [(js ''id'', VStr (js ''main'')), (js ''$tone'', VStr (js ''dark'')),
      (js ''tabIndex'', VNum 0)]"

definition active_classes :: "jsval \<Rightarrow> error + jsval" where
  \<comment> \<open>\<^verbatim>\<open>p => [p.active ? "active" : ""]\<close>\<close>
  "active_classes p =
     bind_err (get_member p (js ''active''))
       (\<lambda>active. Inr (VArr [if truthy active then VStr (js ''active'') else VStr []]))"

definition active_options :: jsval where
  \<comment> \<open>\<^verbatim>\<open>{ base: "a", classes: f }\<close>, with \<open>f\<close> the function reference 0\<close>
  "active_options = VObj [(js ''base'', VStr (js ''a'')), (js ''classes'', VFn 0)]"

definition padded_options :: jsval where
  \<comment> \<open>\<^verbatim>\<open>{ base: " a", classes: f }\<close>: a base class that starts with a space\<close>
  "padded_options = VObj [(js ''base'', VStr (js '' a'')), (js ''classes'', VFn 0)]"

definition padded_props :: obj where
  \<comment> \<open>\<^verbatim>\<open>{ active: true, className: "extra  wide " }\<close>: a doubled space and a space at the end\<close>
  "padded_props = [(js ''active'', VBool True), (js ''className'', VStr (js ''extra  wide ''))]"

definition rendered_once :: hooks where
  \<comment> \<open>the hook state after one render of the component with the base class \<^verbatim>\<open>"box"\<close>\<close>
  "rendered_once =
     (case RenderComponent (=) no_functions (js ''div'') (VStr (js ''box'')) VUndefined mount
             example_props VNull of
        Inr (el, h) \<Rightarrow> h
      | Inl e \<Rightarrow> mount)"

section \<open>Basic facts\<close>

subsection \<open>Sequencing\<close>

lemma bind_err_simps [simp]:
  "bind_err (Inl e) f = Inl e" "bind_err (Inr x) f = f x"
  by (simp_all add: bind_err_def)

lemma bind_err_Inr_iff: "bind_err m f = Inr y \<longleftrightarrow> (\<exists>x. m = Inr x \<and> f x = Inr y)"
  by (cases m) simp_all

subsection \<open>Objects\<close>

lemma map_of_keys_None: "k \<notin> set (obj_keys kvs) \<Longrightarrow> map_of kvs k = None"
  by (simp add: obj_keys_def map_of_eq_None_iff)

lemma map_of_keys_Some: "k \<in> set (obj_keys kvs) \<Longrightarrow> map_of kvs k = Some (obj_get kvs k)"
  by (cases "map_of kvs k") (auto simp: obj_keys_def obj_get_def map_of_eq_None_iff)

lemma obj_get_absent: "k \<notin> set (obj_keys kvs) \<Longrightarrow> obj_get kvs k = VUndefined"
  by (simp add: obj_get_def map_of_keys_None)

lemma map_of_replace:
  "map_of (map (\<lambda>(k', v'). if k' = k then (k', v) else (k', v')) kvs) x =
     (if x = k then (if k \<in> set (obj_keys kvs) then Some v else None) else map_of kvs x)"
proof (induction kvs)
  case Nil
  show ?case by (simp add: obj_keys_def)
next
  case (Cons kv kvs)
  obtain k0 v0 where kv: "kv = (k0, v0)" by (cases kv)
  show ?case using Cons by (force simp: kv obj_keys_def)
qed

lemma map_of_obj_put: "map_of (obj_put k v kvs) x = (if x = k then Some v else map_of kvs x)"
proof (cases "k \<in> set (obj_keys kvs)")
  case True
  then show ?thesis by (simp add: obj_put_def map_of_replace)
next
  case False
  then show ?thesis
    by (simp add: obj_put_def map_of_keys_None map_add_def split: option.splits)
qed

lemma keys_obj_put: "set (obj_keys (obj_put k v kvs)) = insert k (set (obj_keys kvs))"
  by (force simp: obj_put_def obj_keys_def split: if_splits)

lemma obj_keys_obj_put:
  "obj_keys (obj_put k v kvs) =
     (if k \<in> set (obj_keys kvs) then obj_keys kvs else obj_keys kvs @ [k])"
proof -
  have "map fst (map (\<lambda>(k', v'). if k' = k then (k', v) else (k', v')) kvs) = map fst kvs"
    by (induction kvs) auto
  then show ?thesis by (simp add: obj_put_def obj_keys_def)
qed

lemma map_of_copy_props:
  "map_of (copy_props target src ks) k =
     (if k \<in> set ks then Some (obj_get src k) else map_of target k)"
  by (induction ks arbitrary: target) (auto simp: map_of_obj_put)

lemma keys_copy_props:
  "set (obj_keys (copy_props target src ks)) = set (obj_keys target) \<union> set ks"
  by (induction ks arbitrary: target) (auto simp: keys_obj_put)

lemma map_of_spread: "map_of (spread target v) = map_of target ++ map_of (own_entries v)"
proof
  fix k
  show "map_of (spread target v) k = (map_of target ++ map_of (own_entries v)) k"
  proof (cases "k \<in> set (obj_keys (own_entries v))")
    case True
    then show ?thesis by (simp add: spread_def map_of_copy_props map_add_def map_of_keys_Some)
  next
    case False
    then show ?thesis by (simp add: spread_def map_of_copy_props map_add_def map_of_keys_None)
  qed
qed

lemma map_of_obj_rest:
  "map_of (obj_rest kvs excluded) k = (if k \<in> set excluded then None else map_of kvs k)"
  by (cases "k \<in> set (obj_keys kvs)")
     (simp_all add: obj_rest_def map_of_copy_props map_of_keys_Some map_of_keys_None)

lemma keys_obj_rest:
  "set (obj_keys (obj_rest kvs excluded)) = set (obj_keys kvs) - set excluded"
proof -
  have "set (obj_keys ([] :: obj)) = {}" by (simp add: obj_keys_def)
  then show ?thesis by (auto simp: obj_rest_def keys_copy_props)
qed

lemma map_of_omit_loop:
  "map_of (omit_loop props customProps domProps keys) k =
     (if k \<in> set keys \<and> VStr k \<notin> set customProps then Some (obj_get props k)
      else map_of domProps k)"
  by (induction keys arbitrary: domProps) (auto simp: map_of_obj_put)

lemma map_of_omitCustomProps:
  "map_of (omitCustomProps props customProps) k =
     (if VStr k \<in> set customProps then None else map_of props k)"
  by (cases "k \<in> set (obj_keys props)")
     (simp_all add: omitCustomProps_def map_of_omit_loop map_of_keys_Some map_of_keys_None)

lemma map_of_domProps:
  "map_of (own_entries (domProps_of (obj_rest props [js ''className'', js ''style'']) (customProps_of props))) k =
     (if is_custom k \<or> k = js ''className'' \<or> k = js ''style'' then None else map_of props k)"
  by (cases "k \<in> set (obj_keys props)")
    (auto simp: domProps_of_def customProps_of_def map_of_omitCustomProps map_of_obj_rest
      map_of_keys_None)

subsection \<open>String literals\<close>

lemma unat_of_char: "unat (of_char c :: 16 word) = of_char c"
proof -
  have "(of_char c :: 16 word) = of_nat (of_char c)" by (simp add: of_nat_of_char)
  then have "unat (of_char c :: 16 word) = of_char c mod 2 ^ 16"
    by (simp only: unat_of_nat len_of_numeral_defs) simp
  moreover have "(of_char c :: nat) < 2 ^ 16"
    by (rule less_trans [OF nat_of_char_less_256]) simp
  ultimately show ?thesis by simp
qed

lemma of_char16_eq_iff: "(of_char x :: 16 word) = of_char y \<longleftrightarrow> x = y"
proof
  assume "(of_char x :: 16 word) = of_char y"
  then have "unat (of_char x :: 16 word) = unat (of_char y :: 16 word)" by simp
  then show "x = y" by (simp add: unat_of_char)
qed simp

lemma js_eq_iff [simp]: "js a = js b \<longleftrightarrow> a = b"
proof -
  have "inj (of_char :: char \<Rightarrow> 16 word)"
    by (rule injI) (simp add: of_char16_eq_iff)
  then show ?thesis unfolding js_def by (simp add: inj_eq inj_mapI)
qed

lemma is_custom_js [simp]:
  "is_custom (js []) = False" "is_custom (js (c # cs)) = (c = CHR ''$'')"
proof -
  have "(0x24 :: 16 word) = of_char CHR ''$''" by simp
  then have "((of_char c :: 16 word) = 0x24) = (c = CHR ''$'')"
    by (simp only: of_char16_eq_iff)
  then show "is_custom (js (c # cs)) = (c = CHR ''$'')"
    by (simp add: is_custom_def js_def)
  show "is_custom (js []) = False" by (simp add: is_custom_def js_def)
qed

subsection \<open>White space\<close>

lemma is_space_blank [simp]: "is_space 0x20"
  by (simp add: is_space_def)

lemma replace_spaces_Nil_iff [simp]: "replace_spaces s = [] \<longleftrightarrow> s = []"
  by (cases s) simp_all

lemma hd_replace_spaces: "s \<noteq> [] \<Longrightarrow> is_space (hd (replace_spaces s)) = is_space (hd s)"
  by (cases s) simp_all

lemma no_space_run_Cons:
  "no_space_run (c # r) \<longleftrightarrow> r = [] \<or> (\<not> (is_space c \<and> is_space (hd r)) \<and> no_space_run r)"
  by (cases r) simp_all

lemma no_space_run_replace_spaces: "no_space_run (replace_spaces s)"
proof (induction s rule: replace_spaces.induct)
  case 1
  show ?case by simp
next
  case (2 c cs)
  show ?case
  proof (cases "is_space c")
    case True
    let ?t = "dropWhile is_space cs"
    have "?t \<noteq> [] \<Longrightarrow> \<not> is_space (hd (replace_spaces ?t))"
      by (simp add: hd_replace_spaces hd_dropWhile)
    with True 2 show ?thesis
      by (auto simp: no_space_run_Cons)
  next
    case False
    with 2 show ?thesis by (simp add: no_space_run_Cons)
  qed
qed

lemma no_space_run_append:
  "no_space_run (xs @ ys) \<Longrightarrow> no_space_run xs \<and> no_space_run ys"
proof (induction xs)
  case Nil
  then show ?case by simp
next
  case (Cons a xs)
  show ?case
  proof (cases xs)
    case Nil
    with Cons.prems show ?thesis by (cases ys) simp_all
  next
    case (Cons b zs)
    with Cons.prems Cons.IH show ?thesis by simp
  qed
qed

lemma no_space_run_infix:
  "no_space_run s \<Longrightarrow> s = xs @ c # d # ys \<Longrightarrow> \<not> (is_space c \<and> is_space d)"
  using no_space_run_append [of xs "c # d # ys"] by simp

lemma trim_decompose: "\<exists>pre post. s = pre @ trim s @ post"
proof -
  let ?u = "dropWhile is_space s"
  have "rev (takeWhile is_space (rev ?u) @ dropWhile is_space (rev ?u)) = rev (rev ?u)"
    by (simp only: takeWhile_dropWhile_id)
  then have "rev (dropWhile is_space (rev ?u)) @ rev (takeWhile is_space (rev ?u)) = ?u"
    by (simp only: rev_append rev_rev_ident)
  then have "?u = trim s @ rev (takeWhile is_space (rev ?u))"
    by (simp only: trim_def)
  moreover have "s = takeWhile is_space s @ ?u" by simp
  ultimately have "s = takeWhile is_space s @ trim s @ rev (takeWhile is_space (rev ?u))"
    by simp
  then show ?thesis by blast
qed

lemma no_space_run_trim: "no_space_run s \<Longrightarrow> no_space_run (trim s)"
proof -
  assume a: "no_space_run s"
  obtain pre post where "s = pre @ trim s @ post" using trim_decompose by blast
  with a have "no_space_run (pre @ trim s @ post)" by simp
  then show ?thesis using no_space_run_append by blast
qed

lemma trim_no_leading_space: "trim s = c # t \<Longrightarrow> \<not> is_space c"
proof -
  assume a: "trim s = c # t"
  let ?u = "dropWhile is_space s"
  show ?thesis
  proof (cases ?u)
    case Nil
    with a show ?thesis by (simp add: trim_def)
  next
    case (Cons x u')
    then have nx: "\<not> is_space x" using hd_dropWhile [of is_space s] by simp
    then have "dropWhile is_space (rev u' @ [x]) = dropWhile is_space (rev u') @ [x]"
      by (simp add: dropWhile_append3)
    with Cons a have "c = x" by (simp add: trim_def)
    with nx show ?thesis by simp
  qed
qed

lemma trim_no_trailing_space: "trim s = t @ [c] \<Longrightarrow> \<not> is_space c"
proof -
  assume "trim s = t @ [c]"
  then have "rev (trim s) = c # rev t" by simp
  then have "dropWhile is_space (rev (dropWhile is_space s)) = c # rev t"
    by (simp add: trim_def)
  then show ?thesis using hd_dropWhile [of is_space "rev (dropWhile is_space s)"] by simp
qed

lemma cleanClassName_normal:
  "(\<nexists>xs c d ys. cleanClassName s = xs @ c # d # ys \<and> is_space c \<and> is_space d)
   \<and> (\<nexists>c t. cleanClassName s = c # t \<and> is_space c)
   \<and> (\<nexists>t c. cleanClassName s = t @ [c] \<and> is_space c)"
proof -
  have "no_space_run (cleanClassName s)"
    by (simp add: cleanClassName_def no_space_run_trim no_space_run_replace_spaces)
  then show ?thesis
    using no_space_run_infix trim_no_leading_space trim_no_trailing_space
    unfolding cleanClassName_def by blast
qed

lemma collapse_runs_space:
  "is_space c \<Longrightarrow> collapse_runs (c # cs) = 0x20 # collapse_runs (dropWhile is_space cs)"
  by (induction cs arbitrary: c) auto

lemma collapse_runs_other:
  "\<not> is_space c \<Longrightarrow> collapse_runs (c # cs) = c # collapse_runs cs"
  by (cases cs) simp_all

lemma replace_spaces_collapse_runs: "replace_spaces s = collapse_runs s"
  by (induction s rule: replace_spaces.induct)
     (simp_all add: collapse_runs_space collapse_runs_other)

lemma strip_leading_dropWhile: "strip_leading s = dropWhile is_space s"
  by (induction s) simp_all

lemma strip_trailing_Nil_iff: "strip_trailing s = [] \<longleftrightarrow> (\<forall>c \<in> set s. is_space c)"
  by (induction s) auto

lemma strip_trailing_rev: "strip_trailing s = rev (dropWhile is_space (rev s))"
proof (induction s)
  case Nil
  show ?case by simp
next
  case (Cons c cs)
  show ?case
  proof (cases "\<forall>x \<in> set cs. is_space x")
    case True
    then have "strip_trailing cs = []" by (simp add: strip_trailing_Nil_iff)
    moreover from True have "dropWhile is_space (rev cs @ [c]) = dropWhile is_space [c]"
      by (simp add: dropWhile_append)
    ultimately show ?thesis by simp
  next
    case False
    then have "strip_trailing cs \<noteq> []" by (simp add: strip_trailing_Nil_iff)
    moreover from False have "dropWhile is_space (rev cs @ [c]) = dropWhile is_space (rev cs) @ [c]"
      by (auto simp: dropWhile_append)
    ultimately show ?thesis using Cons by simp
  qed
qed

lemma trim_spec_trim: "trim s = spec_trim s"
  by (simp add: trim_def spec_trim_def strip_leading_dropWhile strip_trailing_rev)

lemma cleanClassName_spec: "cleanClassName s = spec_trim (collapse_runs s)"
  by (simp add: cleanClassName_def replace_spaces_collapse_runs trim_spec_trim)

subsection \<open>The joiner on class tokens\<close>

lemma join_spaces_Cons:
  "join_spaces (x # xs) = (if xs = [] then x else x @ [0x20] @ join_spaces xs)"
  by (cases xs) simp_all

lemma join_spaces_append:
  "join_spaces (xs @ ys) =
     (if xs = [] then join_spaces ys else if ys = [] then join_spaces xs
      else join_spaces xs @ [0x20] @ join_spaces ys)"
  by (induction xs) (auto simp: join_spaces_Cons)

lemma join_spaces_Nil_iff:
  "\<forall>x \<in> set xs. x \<noteq> [] \<Longrightarrow> join_spaces xs = [] \<longleftrightarrow> xs = []"
  by (cases xs) (auto simp: join_spaces_Cons)

lemma foldl_append_class:
  "foldl append_class acc xs =
     (if acc = [] then join_spaces xs else join_spaces (acc # xs))" if "\<forall>x \<in> set xs. x \<noteq> []"
  using that
proof (induction xs arbitrary: acc)
  case Nil
  show ?case by simp
next
  case (Cons x xs)
  then show ?case by (auto simp: append_class_def join_spaces_Cons)
qed

lemma foldl_add_value:
  "\<forall>x \<in> set xs. x \<noteq> [] \<Longrightarrow> foldl add_value acc xs = foldl append_class acc xs"
  by (induction xs arbitrary: acc) (simp_all add: add_value_def)

lemma spec_entry_nonempty: "\<forall>x \<in> set (concat (map spec_entry vs)). x \<noteq> []"
proof (induction vs)
  case Nil
  show ?case by simp
next
  case (Cons v vs)
  then show ?case by (cases v) auto
qed

lemma toVal_tokens:
  "list_all class_token vs \<Longrightarrow> map toVal (filter truthy vs) = concat (map spec_entry vs)"
proof (induction vs)
  case Nil
  show ?case by simp
next
  case (Cons v vs)
  then show ?case by (cases v) auto
qed

lemma join_tokens:
  assumes "list_all class_token vs"
  shows "foldl add_value [] (map toVal (filter truthy vs)) = join_spaces (concat (map spec_entry vs))"
  using assms spec_entry_nonempty [of vs]
  by (simp add: toVal_tokens foldl_add_value foldl_append_class)

lemma add_value_join:
  assumes "\<forall>x \<in> set xs. x \<noteq> []" "\<forall>y \<in> set ys. y \<noteq> []"
  shows "add_value (join_spaces xs) (join_spaces ys) = join_spaces (xs @ ys)"
  using assms
  by (auto simp: add_value_def append_class_def join_spaces_append join_spaces_Nil_iff)

lemma argument_contribution:
  assumes "list_all class_token (token_list r)"
  shows "foldl add_value acc (map toVal (filter truthy [r])) =
     add_value acc (join_spaces (concat (map spec_entry (token_list r))))"
proof (cases r)
  case (VArr ts)
  with assms show ?thesis by (simp add: join_tokens)
next
  case (VStr s)
  then show ?thesis by (simp add: add_value_def)
qed (use assms in \<open>auto simp: add_value_def\<close>)

lemma clsx_tokens:
  assumes "class_token b" "list_all class_token (token_list r)" "class_token cn"
  shows "clsx [b, r, cn] = join_spaces (concat (map spec_entry (b # token_list r @ [cn])))"
proof -
  let ?B = "spec_entry b" and ?R = "concat (map spec_entry (token_list r))" and ?C = "spec_entry cn"
  have ne: "\<forall>x \<in> set ?B. x \<noteq> []" "\<forall>x \<in> set ?R. x \<noteq> []" "\<forall>x \<in> set ?C. x \<noteq> []"
    using spec_entry_nonempty [of "[b]"] spec_entry_nonempty [of "token_list r"]
      spec_entry_nonempty [of "[cn]"] by simp_all
  have b: "foldl add_value acc (map toVal (filter truthy [b])) = add_value acc (join_spaces ?B)" for acc
    using assms(1) by (cases b) (auto simp: add_value_def)
  have c: "foldl add_value acc (map toVal (filter truthy [cn])) = add_value acc (join_spaces ?C)" for acc
    using assms(3) by (cases cn) (auto simp: add_value_def)
  have "clsx [b, r, cn] =
      foldl add_value (foldl add_value (foldl add_value [] (map toVal (filter truthy [b])))
        (map toVal (filter truthy [r]))) (map toVal (filter truthy [cn]))"
    by (simp add: clsx_def)
  also have "\<dots> = add_value (add_value (add_value [] (join_spaces ?B)) (join_spaces ?R)) (join_spaces ?C)"
    by (simp only: b c argument_contribution [OF assms(2)])
  also have "add_value [] (join_spaces ?B) = join_spaces ?B"
    by (simp add: add_value_def append_class_def)
  also have "add_value (join_spaces ?B) (join_spaces ?R) = join_spaces (?B @ ?R)"
    using ne by (simp add: add_value_join)
  also have "add_value (join_spaces (?B @ ?R)) (join_spaces ?C) = join_spaces ((?B @ ?R) @ ?C)"
    using ne by (intro add_value_join) auto
  finally show ?thesis by simp
qed

subsection \<open>The first render as a composition\<close>

lemma render_eq:
  "render fe tag options css props ref =
     bind_err (baseClass_of options) (\<lambda>baseClass.
     bind_err (dynamicClasses_of options) (\<lambda>dynamicClasses.
     bind_err (dynamicCss_of options css) (\<lambda>dynamicCss.
     bind_err (classes_of fe baseClass dynamicClasses (obj_get props (js ''className'')) props) (\<lambda>classes.
     bind_err (resolvedCss_of fe dynamicCss props) (\<lambda>resolvedCss.
       Inr (createElement tag
             (obj_put (js ''ref'') ref
               (obj_put (js ''style'') (mergedStyles_of resolvedCss (obj_get props (js ''style'')))
                 (obj_put (js ''className'') classes
                   (spread [] (domProps_of (obj_rest props [js ''className'', js ''style'']) (customProps_of props))))))))))))"
  unfolding render_def RenderComponent_def mount_def useMemo_def Let_def bind_err_def
  by (simp split: sum.splits)

lemma render_Inr_D:
  assumes "render fe tag options css props ref = Inr el"
  obtains b d dc cls r where
    "baseClass_of options = Inr b" "dynamicClasses_of options = Inr d"
    "dynamicCss_of options css = Inr dc"
    "classes_of fe b d (obj_get props (js ''className'')) props = Inr cls"
    "resolvedCss_of fe dc props = Inr r"
    "el = createElement tag
            (final_config ref (mergedStyles_of r (obj_get props (js ''style''))) cls props)"
  using assms unfolding render_eq bind_err_Inr_iff final_config_def by blast

lemma render_Inr_I:
  assumes "baseClass_of options = Inr b" "dynamicClasses_of options = Inr d"
    "dynamicCss_of options css = Inr dc"
    "classes_of fe b d (obj_get props (js ''className'')) props = Inr cls"
    "resolvedCss_of fe dc props = Inr r"
  shows "render fe tag options css props ref =
     Inr (createElement tag
           (final_config ref (mergedStyles_of r (obj_get props (js ''style''))) cls props))"
  using assms by (simp add: render_eq final_config_def)

lemma render_no_configuration:
  "render fe tag VUndefined VUndefined props ref =
     Inr (createElement tag (final_config ref
        (mergedStyles_of VUndefined (obj_get props (js ''style'')))
        (VStr (cleanClassName (clsx [VUndefined, VArr [], obj_get props (js ''className'')])))
        props))"
  by (rule render_Inr_I [where b = VUndefined and d = VUndefined and dc = VUndefined])
     (simp_all add: baseClass_of_def dynamicClasses_of_def dynamicCss_of_def classes_of_def dynamic_tokens_def
        resolvedCss_of_def)

lemma el_config_createElement [simp]: "el_config (createElement tag config) = config"
  by (simp add: createElement_def)

lemma map_of_final_config:
  "map_of (final_config ref m cls props) k =
     (if k = js ''ref'' then Some ref
      else if k = js ''style'' then Some m
      else if k = js ''className'' then Some cls
      else if is_custom k then None
      else map_of props k)"
  by (simp add: final_config_def map_of_obj_put map_of_spread map_of_domProps)

lemma keys_final_config:
  "set (obj_keys (final_config ref m cls props)) =
     {js ''ref'', js ''style'', js ''className''} \<union> {k \<in> set (obj_keys props). \<not> is_custom k}"
proof -
  have "k \<in> set (obj_keys kvs) \<longleftrightarrow> map_of kvs k \<noteq> None" for k and kvs :: obj
    by (simp add: obj_keys_def map_of_eq_None_iff)
  then show ?thesis
    by (auto simp: map_of_final_config split: if_splits)
qed

lemma obj_get_final_config:
  "obj_get (final_config ref m cls props) (js ''className'') = cls"
  "obj_get (final_config ref m cls props) (js ''style'') = m"
  "obj_get (final_config ref m cls props) (js ''ref'') = ref"
  by (simp_all add: obj_get_def map_of_final_config)

lemma final_config_single_entries:
  "count_list (obj_keys (final_config ref m cls props)) (js ''className'') = 1"
  "count_list (obj_keys (final_config ref m cls props)) (js ''style'') = 1"
proof -
  let ?D = "spread [] (domProps_of (obj_rest props [js ''className'', js ''style''])
              (customProps_of props))"
  have "map_of ?D (js ''className'') = None" "map_of ?D (js ''style'') = None"
    by (simp_all add: map_of_spread map_of_domProps)
  then have n: "js ''className'' \<notin> set (obj_keys ?D)" "js ''style'' \<notin> set (obj_keys ?D)"
    by (simp_all add: obj_keys_def map_of_eq_None_iff)
  then have c: "count_list (obj_keys ?D) (js ''className'') = 0"
    "count_list (obj_keys ?D) (js ''style'') = 0"
    by (simp_all add: count_notin)
  show "count_list (obj_keys (final_config ref m cls props)) (js ''className'') = 1"
    using n c by (simp add: final_config_def obj_keys_obj_put)
  show "count_list (obj_keys (final_config ref m cls props)) (js ''style'') = 1"
    using n c by (simp add: final_config_def obj_keys_obj_put)
qed

lemma classes_of_VStr:
  "classes_of fe b d cn props = Inr cls \<Longrightarrow> \<exists>s. cls = VStr s"
  by (auto simp: classes_of_def dynamic_tokens_def bind_err_Inr_iff)

lemma classes_of_Inr_D:
  assumes "classes_of fe b d cn props = Inr cls"
  obtains tokens where
    "dynamic_tokens fe d props = Inr tokens"
    "cls = VStr (cleanClassName (clsx [b, tokens, cn]))"
  using assms by (auto simp: classes_of_def bind_err_Inr_iff)

subsection \<open>Options of an unrecognised shape, and the failures of a render\<close>

lemma unrecognised_options_resolve_to_nothing:
  assumes "typeof options \<noteq> ''string''" "typeof options \<noteq> ''function''"
    "typeof options \<noteq> ''object''"
  shows "baseClass_of options = Inr VUndefined"
    and "dynamicClasses_of options = Inr VUndefined"
    and "dynamicCss_of options css = Inr css"
    and "render fe tag options css props ref = render fe tag VUndefined css props ref"
  using assms
  by (simp_all add: baseClass_of_def dynamicClasses_of_def dynamicCss_of_def render_eq)

lemma number_and_boolean_options_render:
  "render fe tag (VNum n) VUndefined props ref = render fe tag VUndefined VUndefined props ref"
  "render fe tag (VBool b) VUndefined props ref = render fe tag VUndefined VUndefined props ref"
  "\<exists>el. render fe tag VUndefined VUndefined props ref = Inr el"
  by (simp_all add: unrecognised_options_resolve_to_nothing(4) render_no_configuration)

lemma render_failure_cases:
  assumes "render fe tag options css props ref = Inl e"
  shows "(options = VNull \<and> e = TypeError)
    \<or> (\<exists>d. dynamicClasses_of options = Inr d \<and> dynamic_tokens fe d props = Inl e)
    \<or> (\<exists>dc. dynamicCss_of options css = Inr dc \<and> resolvedCss_of fe dc props = Inl e)"
proof -
  have b: "baseClass_of options = Inl e' \<Longrightarrow> options = VNull \<and> e' = TypeError" for e'
    by (cases options) (auto simp: baseClass_of_def split: if_splits)
  have d: "\<exists>d. dynamicClasses_of options = Inr d"
    by (cases options) (auto simp: dynamicClasses_of_def opt_member_def)
  have dc: "\<exists>dc. dynamicCss_of options css = Inr dc"
    by (cases options) (auto simp: dynamicCss_of_def opt_member_def)
  from assms b d dc show ?thesis
    unfolding render_eq classes_of_def
    by (auto simp: bind_err_def split: sum.splits)
qed

subsection \<open>Renders on filled memo cells\<close>

lemma same_deps_equal:
  assumes "\<forall>a b. same a b \<longrightarrow> a = b" and "areHookInputsEqual same deps prevDeps"
  shows "deps = prevDeps"
proof -
  from assms(2) have "list_all2 same deps prevDeps" by (simp add: areHookInputsEqual_def)
  then have "list_all2 (=) deps prevDeps"
    by (rule list_all2_mono) (use assms(1) in blast)
  then show ?thesis by (simp add: list.rel_eq)
qed

lemma useMemo_coherent:
  assumes "\<forall>a b. same a b \<longrightarrow> a = b" and "cell_ok F c"
  shows "useMemo same c (F deps) deps = bind_err (F deps) (\<lambda>v. Inr (v, next_cell same c deps v))"
proof (cases c)
  case None
  then show ?thesis by (simp add: useMemo_def next_cell_def)
next
  case (Some dv)
  obtain prev pv where dv: "dv = (prev, pv)" by (cases dv)
  show ?thesis
  proof (cases "areHookInputsEqual same deps prev")
    case True
    with assms(1) have "deps = prev" by (rule same_deps_equal)
    with assms(2) Some dv have "F deps = Inr pv" by (simp add: cell_ok_def)
    with True Some dv show ?thesis by (simp add: useMemo_def next_cell_def)
  next
    case False
    with Some dv show ?thesis by (simp add: useMemo_def next_cell_def)
  qed
qed

lemma next_cell_ok:
  assumes "cell_ok F c" and "F deps = Inr v"
  shows "cell_ok F (next_cell same c deps v)"
  using assms by (auto simp: cell_ok_def next_cell_def split: option.splits)

lemma RenderComponent_coherent:
  assumes sound: "\<forall>a b. same a b \<longrightarrow> a = b" and coh: "coherent fe h"
  shows "map_sum id fst (RenderComponent same fe tag options css h props ref)
           = render fe tag options css props ref"
    and "RenderComponent same fe tag options css h props ref = Inr (el, h') \<Longrightarrow> coherent fe h'"
proof -
  let ?cn = "obj_get props (js ''className'')"
  let ?st = "obj_get props (js ''style'')"
  let ?rest = "obj_rest props [js ''className'', js ''style'']"
  from coh have ok:
    "cell_ok baseClass_from (h_baseClass h)" "cell_ok dynamicClasses_from (h_dynamicClasses h)"
    "cell_ok dynamicCss_from (h_dynamicCss h)" "cell_ok (classes_from fe) (h_classes h)"
    "cell_ok (resolvedCss_from fe) (h_resolvedCss h)" "cell_ok mergedStyles_from (h_mergedStyles h)"
    "cell_ok customProps_from (h_customProps h)" "cell_ok domProps_from (h_domProps h)"
    by (simp_all add: coherent_def)
  have u1: "useMemo same (h_baseClass h) (baseClass_of options) [options] =
      bind_err (baseClass_of options) (\<lambda>v. Inr (v, next_cell same (h_baseClass h) [options] v))"
    using useMemo_coherent [OF sound ok(1), of "[options]"] by simp
  have u2: "useMemo same (h_dynamicClasses h) (dynamicClasses_of options) [options] =
      bind_err (dynamicClasses_of options)
        (\<lambda>v. Inr (v, next_cell same (h_dynamicClasses h) [options] v))"
    using useMemo_coherent [OF sound ok(2), of "[options]"] by simp
  have u3: "useMemo same (h_dynamicCss h) (dynamicCss_of options css) [options, css] =
      bind_err (dynamicCss_of options css)
        (\<lambda>v. Inr (v, next_cell same (h_dynamicCss h) [options, css] v))"
    using useMemo_coherent [OF sound ok(3), of "[options, css]"] by simp
  have u4: "useMemo same (h_classes h) (classes_of fe b d ?cn props) [b, d, ?cn, VObj props] =
      bind_err (classes_of fe b d ?cn props)
        (\<lambda>v. Inr (v, next_cell same (h_classes h) [b, d, ?cn, VObj props] v))" for b d
    using useMemo_coherent [OF sound ok(4), of "[b, d, ?cn, VObj props]"] by simp
  have u5: "useMemo same (h_resolvedCss h) (resolvedCss_of fe dc props) [dc, VObj props] =
      bind_err (resolvedCss_of fe dc props)
        (\<lambda>v. Inr (v, next_cell same (h_resolvedCss h) [dc, VObj props] v))" for dc
    using useMemo_coherent [OF sound ok(5), of "[dc, VObj props]"] by simp
  have u6: "useMemo same (h_mergedStyles h) (Inr (mergedStyles_of r ?st)) [r, ?st] =
      Inr (mergedStyles_of r ?st,
           next_cell same (h_mergedStyles h) [r, ?st] (mergedStyles_of r ?st))" for r
    using useMemo_coherent [OF sound ok(6), of "[r, ?st]"] by simp
  have u7: "useMemo same (h_customProps h) (Inr (customProps_of props)) [VObj props] =
      Inr (customProps_of props,
           next_cell same (h_customProps h) [VObj props] (customProps_of props))"
    using useMemo_coherent [OF sound ok(7), of "[VObj props]"] by simp
  have u8: "useMemo same (h_domProps h) (Inr (domProps_of ?rest cp)) [VObj ?rest, cp] =
      Inr (domProps_of ?rest cp,
           next_cell same (h_domProps h) [VObj ?rest, cp] (domProps_of ?rest cp))" for cp
    using useMemo_coherent [OF sound ok(8), of "[VObj ?rest, cp]"] by simp
  have rc: "RenderComponent same fe tag options css h props ref =
     bind_err (baseClass_of options) (\<lambda>b.
     bind_err (dynamicClasses_of options) (\<lambda>d.
     bind_err (dynamicCss_of options css) (\<lambda>dc.
     bind_err (classes_of fe b d ?cn props) (\<lambda>cls.
     bind_err (resolvedCss_of fe dc props) (\<lambda>r.
       Inr (createElement tag (final_config ref (mergedStyles_of r ?st) cls props),
            \<lparr>h_baseClass = next_cell same (h_baseClass h) [options] b,
             h_dynamicClasses = next_cell same (h_dynamicClasses h) [options] d,
             h_dynamicCss = next_cell same (h_dynamicCss h) [options, css] dc,
             h_classes = next_cell same (h_classes h) [b, d, ?cn, VObj props] cls,
             h_resolvedCss = next_cell same (h_resolvedCss h) [dc, VObj props] r,
             h_mergedStyles = next_cell same (h_mergedStyles h) [r, ?st] (mergedStyles_of r ?st),
             h_customProps = next_cell same (h_customProps h) [VObj props] (customProps_of props),
             h_domProps = next_cell same (h_domProps h) [VObj ?rest, customProps_of props]
                (domProps_of ?rest (customProps_of props))\<rparr>))))))"
    unfolding RenderComponent_def Let_def u1 u2 u3 u4 u5 u6 u7 u8 final_config_def
    by (simp add: bind_err_def split: sum.splits)
  show "map_sum id fst (RenderComponent same fe tag options css h props ref)
           = render fe tag options css props ref"
    unfolding rc render_eq final_config_def
    by (simp add: bind_err_def split: sum.splits)
  show "coherent fe h'" if "RenderComponent same fe tag options css h props ref = Inr (el, h')"
  proof -
    from that [unfolded rc bind_err_Inr_iff]
    obtain b d dc cls r where *:
      "baseClass_of options = Inr b" "dynamicClasses_of options = Inr d"
      "dynamicCss_of options css = Inr dc" "classes_of fe b d ?cn props = Inr cls"
      "resolvedCss_of fe dc props = Inr r"
      and h': "h' = \<lparr>h_baseClass = next_cell same (h_baseClass h) [options] b,
             h_dynamicClasses = next_cell same (h_dynamicClasses h) [options] d,
             h_dynamicCss = next_cell same (h_dynamicCss h) [options, css] dc,
             h_classes = next_cell same (h_classes h) [b, d, ?cn, VObj props] cls,
             h_resolvedCss = next_cell same (h_resolvedCss h) [dc, VObj props] r,
             h_mergedStyles = next_cell same (h_mergedStyles h) [r, ?st] (mergedStyles_of r ?st),
             h_customProps = next_cell same (h_customProps h) [VObj props] (customProps_of props),
             h_domProps = next_cell same (h_domProps h) [VObj ?rest, customProps_of props]
                (domProps_of ?rest (customProps_of props))\<rparr>"
      by blast
    show ?thesis
      unfolding coherent_def h'
      using ok * by (simp add: next_cell_ok)
  qed
qed

lemma coherent_mount: "coherent fe mount"
  by (simp add: coherent_def mount_def cell_ok_def)

lemma reachable_coherent:
  assumes "\<forall>a b. same a b \<longrightarrow> a = b" and "reachable same fe tag options css h"
  shows "coherent fe h"
  using assms(2)
proof (induction rule: reachable.induct)
  case reachable_mount
  show ?case by (rule coherent_mount)
next
  case (reachable_render h props ref el h')
  from assms(1) reachable_render.IH reachable_render.hyps(2) show ?case
    by (rule RenderComponent_coherent(2))
qed

section \<open>Properties of the component\<close>

text \<open>
  Claim C1. Whatever the props passed at render time, no key that begins with the marker
  \<^verbatim>\<open>$\<close> is among the keys of the object handed to \<^verbatim>\<open>createElement\<close>. (The functions
  of the configuration are still called with the full props, custom keys included: see
  \<open>classes_of\<close> and \<open>resolvedCss_of\<close>.)
\<close>

theorem forwarded_props_no_custom_key:
  assumes "render fe tag options css props ref = Inr el"
  shows "\<forall>k \<in> set (obj_keys (el_config el)). \<not> is_custom k \<and> (\<forall>t. k \<noteq> 0x24 # t)"
proof -
  from assms obtain m cls where "el = createElement tag (final_config ref m cls props)"
    by (rule render_Inr_D)
  then have "set (obj_keys (el_config el)) =
      {js ''ref'', js ''style'', js ''className''} \<union> {k \<in> set (obj_keys props). \<not> is_custom k}"
    by (simp add: keys_final_config)
  moreover have "\<not> is_custom k \<Longrightarrow> k \<noteq> 0x24 # t" for k t
    by (auto simp: is_custom_def)
  ultimately show ?thesis by auto
qed

theorem forwarded_props_no_custom_key_witness:
  "render no_functions (js ''div'') (VStr (js ''box'')) VUndefined example_props VNull =
     Inr \<lparr>el_type = js ''div'',
          el_config = [(js ''id'', VStr (js ''main'')), (js ''className'', VStr (js ''box wide'')),
            (js ''style'', VObj [(js ''color'', VStr (js ''blue''))]), (js ''ref'', VNull)]\<rparr>
   \<and> \<not> is_custom (js ''id'') \<and> \<not> is_custom (js ''className'')
   \<and> \<not> is_custom (js ''style'') \<and> \<not> is_custom (js ''ref'')"
proof -
  have h: "render no_functions (js ''div'') (VStr (js ''box'')) VUndefined example_props VNull =
     Inr \<lparr>el_type = js ''div'',
          el_config = [(js ''id'', VStr (js ''main'')), (js ''className'', VStr (js ''box wide'')),
            (js ''style'', VObj [(js ''color'', VStr (js ''blue''))]), (js ''ref'', VNull)]\<rparr>"
    by code_simp
  show ?thesis
    using h forwarded_props_no_custom_key [OF h] by (simp add: obj_keys_def)
qed

text \<open>
  Claim C2. Whatever the configuration and the props, the class name handed to the element
  holds no two adjacent white-space characters, and neither starts nor ends with one.
\<close>

theorem final_class_name_normalised:
  assumes "render fe tag options css props ref = Inr el"
  shows "\<exists>s. obj_get (el_config el) (js ''className'') = VStr s
    \<and> (\<nexists>xs c d ys. s = xs @ c # d # ys \<and> is_space c \<and> is_space d)
    \<and> (\<nexists>c t. s = c # t \<and> is_space c)
    \<and> (\<nexists>t c. s = t @ [c] \<and> is_space c)"
proof -
  from assms obtain b d cls m where
    cls: "classes_of fe b d (obj_get props (js ''className'')) props = Inr cls"
    and el: "el = createElement tag (final_config ref m cls props)"
    by (rule render_Inr_D)
  from cls obtain tokens where
    "cls = VStr (cleanClassName (clsx [b, tokens, obj_get props (js ''className'')]))"
    by (rule classes_of_Inr_D)
  with el have "obj_get (el_config el) (js ''className'') =
      VStr (cleanClassName (clsx [b, tokens, obj_get props (js ''className'')]))"
    by (simp add: obj_get_final_config)
  then show ?thesis
    using cleanClassName_normal [of "clsx [b, tokens, obj_get props (js ''className'')]"]
    by blast
qed

theorem final_class_name_normalised_witness:
  "render no_functions (js ''p'') (VStr (js ''a  b '')) VUndefined spaced_props VNull =
     Inr \<lparr>el_type = js ''p'',
          el_config = [(js ''className'', VStr (js ''a b w x'')), (js ''style'', VObj []),
            (js ''ref'', VNull)]\<rparr>
   \<and> (\<nexists>xs c d ys. js ''a b w x'' = xs @ c # d # ys \<and> is_space c \<and> is_space d)
   \<and> (\<nexists>c t. js ''a b w x'' = c # t \<and> is_space c)
   \<and> (\<nexists>t c. js ''a b w x'' = t @ [c] \<and> is_space c)"
proof -
  have h: "render no_functions (js ''p'') (VStr (js ''a  b '')) VUndefined spaced_props VNull =
     Inr \<lparr>el_type = js ''p'',
          el_config = [(js ''className'', VStr (js ''a b w x'')), (js ''style'', VObj []),
            (js ''ref'', VNull)]\<rparr>"
    by code_simp
  have g: "obj_get [(js ''className'', VStr (js ''a b w x'')), (js ''style'', VObj []),
            (js ''ref'', VNull)] (js ''className'') = VStr (js ''a b w x'')"
    by (simp add: obj_get_def)
  show ?thesis
    using h final_class_name_normalised [OF h] by (simp add: g)
qed

text \<open>
  Claim C3. When the base class, the dynamic class tokens and the incoming \<^verbatim>\<open>className\<close>
  are strings or falsy values, the class name handed to the element is the one the spec
  describes: the non-empty strings among them, in that order, joined with single spaces,
  every run of white space collapsed to one space, and the white space at both ends
  removed, each step as the spec words it (\<open>join_spaces\<close>, \<open>collapse_runs\<close>,
  \<open>spec_trim\<close>). With
  \<^verbatim>\<open>options = "foo"\<close> and the incoming \<^verbatim>\<open>className = "bar"\<close> it is \<^verbatim>\<open>"foo bar"\<close>; with
  \<^verbatim>\<open>options = { base: "a", classes: p => [p.active ? "active" : ""] }\<close> it is \<^verbatim>\<open>"a"\<close>
  for the props \<^verbatim>\<open>{ active: false }\<close> and \<^verbatim>\<open>"a active"\<close> for \<^verbatim>\<open>{ active: true }\<close>.
\<close>

theorem final_class_name_is_joined_sources:
  assumes "render fe tag options css props ref = Inr el"
    and "baseClass_of options = Inr baseClass"
    and "dynamicClasses_of options = Inr dynamicClasses"
    and "dynamic_tokens fe dynamicClasses props = Inr tokens"
    and "class_token baseClass"
    and "list_all class_token (token_list tokens)"
    and "class_token (obj_get props (js ''className''))"
  shows "obj_get (el_config el) (js ''className'') =
       VStr (spec_class_name baseClass (token_list tokens) (obj_get props (js ''className'')))
   \<and> (\<exists>el'. render fe tag (VStr (js ''foo'')) VUndefined [(js ''className'', VStr (js ''bar''))] ref
            = Inr el'
        \<and> obj_get (el_config el') (js ''className'') = VStr (js ''foo bar''))
   \<and> (\<exists>el'. render (\<lambda>f. active_classes) tag active_options VUndefined
            [(js ''active'', VBool False)] ref = Inr el'
        \<and> obj_get (el_config el') (js ''className'') = VStr (js ''a''))
   \<and> (\<exists>el'. render (\<lambda>f. active_classes) tag active_options VUndefined
            [(js ''active'', VBool True)] ref = Inr el'
        \<and> obj_get (el_config el') (js ''className'') = VStr (js ''a active''))"
proof (intro conjI)
  from assms(1) obtain b d cls m where
    b: "baseClass_of options = Inr b" and d: "dynamicClasses_of options = Inr d"
    and cls: "classes_of fe b d (obj_get props (js ''className'')) props = Inr cls"
    and el: "el = createElement tag (final_config ref m cls props)"
    by (rule render_Inr_D)
  from b d assms(2,3) have [simp]: "b = baseClass" "d = dynamicClasses" by simp_all
  from cls assms(4) have
    "cls = VStr (cleanClassName (clsx [baseClass, tokens, obj_get props (js ''className'')]))"
    by (simp add: classes_of_def)
  also have "clsx [baseClass, tokens, obj_get props (js ''className'')] =
      join_spaces (concat (map spec_entry
        (baseClass # token_list tokens @ [obj_get props (js ''className'')])))"
    using assms(5-7) by (rule clsx_tokens)
  finally show "obj_get (el_config el) (js ''className'') =
       VStr (spec_class_name baseClass (token_list tokens) (obj_get props (js ''className'')))"
    by (simp add: el obj_get_final_config spec_class_name_def cleanClassName_spec)
next
  let ?p = "[(js ''className'', VStr (js ''bar''))]"
  have "cleanClassName (clsx [VStr (js ''foo''), VArr [], VStr (js ''bar'')]) = js ''foo bar''"
    by code_simp
  then have "render fe tag (VStr (js ''foo'')) VUndefined ?p ref =
      Inr (createElement tag (final_config ref (mergedStyles_of VUndefined (obj_get ?p (js ''style'')))
         (VStr (js ''foo bar'')) ?p))"
    by (intro render_Inr_I [where b = "VStr (js ''foo'')" and d = VUndefined and dc = VUndefined])
       (simp_all add: baseClass_of_def dynamicClasses_of_def dynamicCss_of_def classes_of_def
          dynamic_tokens_def resolvedCss_of_def obj_get_def)
  then show "\<exists>el'. render fe tag (VStr (js ''foo'')) VUndefined ?p ref = Inr el'
        \<and> obj_get (el_config el') (js ''className'') = VStr (js ''foo bar'')"
    by (simp add: obj_get_final_config)
next
  let ?p = "[(js ''active'', VBool False)]"
  have "cleanClassName (clsx [VStr (js ''a''), VArr [VStr []], obj_get ?p (js ''className'')]) = js ''a''"
    by code_simp
  then have "render (\<lambda>f. active_classes) tag active_options VUndefined ?p ref =
      Inr (createElement tag (final_config ref (mergedStyles_of VUndefined (obj_get ?p (js ''style'')))
         (VStr (js ''a'')) ?p))"
    by (intro render_Inr_I [where b = "VStr (js ''a'')" and d = "VFn 0" and dc = VUndefined])
       (simp_all add: active_options_def baseClass_of_def dynamicClasses_of_def dynamicCss_of_def
          classes_of_def dynamic_tokens_def resolvedCss_of_def opt_member_def obj_get_def
          active_classes_def)
  then show "\<exists>el'. render (\<lambda>f. active_classes) tag active_options VUndefined ?p ref = Inr el'
        \<and> obj_get (el_config el') (js ''className'') = VStr (js ''a'')"
    by (simp add: obj_get_final_config)
next
  let ?p = "[(js ''active'', VBool True)]"
  have "cleanClassName (clsx [VStr (js ''a''), VArr [VStr (js ''active'')], obj_get ?p (js ''className'')])
      = js ''a active''"
    by code_simp
  then have "render (\<lambda>f. active_classes) tag active_options VUndefined ?p ref =
      Inr (createElement tag (final_config ref (mergedStyles_of VUndefined (obj_get ?p (js ''style'')))
         (VStr (js ''a active'')) ?p))"
    by (intro render_Inr_I [where b = "VStr (js ''a'')" and d = "VFn 0" and dc = VUndefined])
       (simp_all add: active_options_def baseClass_of_def dynamicClasses_of_def dynamicCss_of_def
          classes_of_def dynamic_tokens_def resolvedCss_of_def opt_member_def obj_get_def
          active_classes_def)
  then show "\<exists>el'. render (\<lambda>f. active_classes) tag active_options VUndefined ?p ref = Inr el'
        \<and> obj_get (el_config el') (js ''className'') = VStr (js ''a active'')"
    by (simp add: obj_get_final_config)
qed

theorem final_class_name_is_joined_sources_witness:
  "render (\<lambda>f. active_classes) (js ''div'') padded_options VUndefined padded_props VNull =
     Inr \<lparr>el_type = js ''div'',
          el_config = [(js ''active'', VBool True), (js ''className'', VStr (js ''a active extra wide'')),
            (js ''style'', VObj []), (js ''ref'', VNull)]\<rparr>
   \<and> baseClass_of padded_options = Inr (VStr (js '' a''))
   \<and> dynamicClasses_of padded_options = Inr (VFn 0)
   \<and> dynamic_tokens (\<lambda>f. active_classes) (VFn 0) padded_props = Inr (VArr [VStr (js ''active'')])
   \<and> class_token (VStr (js '' a''))
   \<and> list_all class_token (token_list (VArr [VStr (js ''active'')]))
   \<and> class_token (obj_get padded_props (js ''className''))
   \<and> obj_get padded_props (js ''className'') = VStr (js ''extra  wide '')
   \<and> join_spaces (concat (map spec_entry
         [VStr (js '' a''), VStr (js ''active''), VStr (js ''extra  wide '')]))
       = js '' a active extra  wide ''
   \<and> VStr (js ''a active extra wide'') =
       VStr (spec_class_name (VStr (js '' a'')) (token_list (VArr [VStr (js ''active'')]))
              (obj_get padded_props (js ''className'')))"
proof -
  let ?cfg = "[(js ''active'', VBool True), (js ''className'', VStr (js ''a active extra wide'')),
            (js ''style'', VObj []), (js ''ref'', VNull)]"
  have h: "render (\<lambda>f. active_classes) (js ''div'') padded_options VUndefined padded_props VNull =
     Inr \<lparr>el_type = js ''div'', el_config = ?cfg\<rparr>"
    by code_simp
  have b: "baseClass_of padded_options = Inr (VStr (js '' a''))"
    and d: "dynamicClasses_of padded_options = Inr (VFn 0)"
    and t: "dynamic_tokens (\<lambda>f. active_classes) (VFn 0) padded_props = Inr (VArr [VStr (js ''active'')])"
    by code_simp+
  have c: "class_token (VStr (js '' a''))"
    "list_all class_token (token_list (VArr [VStr (js ''active'')]))"
    "class_token (obj_get padded_props (js ''className''))"
    by (simp_all add: padded_props_def obj_get_def)
  have cn: "obj_get padded_props (js ''className'') = VStr (js ''extra  wide '')"
    by (simp add: padded_props_def obj_get_def)
  have j: "join_spaces (concat (map spec_entry
         [VStr (js '' a''), VStr (js ''active''), VStr (js ''extra  wide '')]))
       = js '' a active extra  wide ''"
    by code_simp
  have g: "obj_get ?cfg (js ''className'') = VStr (js ''a active extra wide'')"
    by (simp add: obj_get_def)
  from final_class_name_is_joined_sources [OF h b d t c, THEN conjunct1]
  have "VStr (js ''a active extra wide'') =
       VStr (spec_class_name (VStr (js '' a'')) (token_list (VArr [VStr (js ''active'')]))
              (obj_get padded_props (js ''className'')))"
    by (simp only: element.select_convs g)
  with h b d t c cn j show ?thesis by blast
qed

text \<open>
  Claim C4. The style handed to the element is the resolved CSS with the incoming
  \<^verbatim>\<open>style\<close> prop merged over it: a key of the incoming style has the incoming value,
  any other key the value of the resolved CSS. With \<^verbatim>\<open>css: { color: "red" }\<close> in the
  options and the incoming style \<^verbatim>\<open>{ color: "blue" }\<close> the result is
  \<^verbatim>\<open>{ color: "blue" }\<close>.
\<close>

theorem merged_style_incoming_wins:
  assumes "render fe tag options css props ref = Inr el"
  shows "(\<exists>dynamicCss resolvedCss m.
       dynamicCss_of options css = Inr dynamicCss
     \<and> resolvedCss_of fe dynamicCss props = Inr resolvedCss
     \<and> obj_get (el_config el) (js ''style'') = VObj m
     \<and> map_of m = map_of (own_entries resolvedCss)
                   ++ map_of (own_entries (obj_get props (js ''style'')))
     \<and> (\<forall>k v. map_of (own_entries (obj_get props (js ''style''))) k = Some v
           \<longrightarrow> map_of m k = Some v))
   \<and> (\<exists>el'. render fe tag (VObj [(js ''css'', VObj [(js ''color'', VStr (js ''red''))])]) css
              [(js ''style'', VObj [(js ''color'', VStr (js ''blue''))])] ref = Inr el'
        \<and> obj_get (el_config el') (js ''style'') = VObj [(js ''color'', VStr (js ''blue''))])"
proof
  from assms obtain dc cls r where
    dc: "dynamicCss_of options css = Inr dc" and r: "resolvedCss_of fe dc props = Inr r"
    and el: "el = createElement tag
            (final_config ref (mergedStyles_of r (obj_get props (js ''style''))) cls props)"
    by (rule render_Inr_D)
  let ?style = "obj_get props (js ''style'')"
  let ?m = "spread (spread [] r) ?style"
  have "obj_get (el_config el) (js ''style'') = VObj ?m"
    by (simp add: el obj_get_final_config mergedStyles_of_def)
  moreover have m: "map_of ?m = map_of (own_entries r) ++ map_of (own_entries ?style)"
    by (simp add: map_of_spread)
  moreover have "\<forall>k v. map_of (own_entries ?style) k = Some v \<longrightarrow> map_of ?m k = Some v"
    by (simp add: m)
  ultimately show "\<exists>dynamicCss resolvedCss m.
       dynamicCss_of options css = Inr dynamicCss
     \<and> resolvedCss_of fe dynamicCss props = Inr resolvedCss
     \<and> obj_get (el_config el) (js ''style'') = VObj m
     \<and> map_of m = map_of (own_entries resolvedCss)
                   ++ map_of (own_entries (obj_get props (js ''style'')))
     \<and> (\<forall>k v. map_of (own_entries (obj_get props (js ''style''))) k = Some v
           \<longrightarrow> map_of m k = Some v)"
    using dc r by blast
next
  let ?o = "VObj [(js ''css'', VObj [(js ''color'', VStr (js ''red''))])]"
  let ?p = "[(js ''style'', VObj [(js ''color'', VStr (js ''blue''))])]"
  have "render fe tag ?o css ?p ref =
     Inr (createElement tag (final_config ref
        (mergedStyles_of (VObj [(js ''color'', VStr (js ''red''))]) (obj_get ?p (js ''style'')))
        (VStr (cleanClassName (clsx [VUndefined, VArr [], obj_get ?p (js ''className'')]))) ?p))"
    by (rule render_Inr_I [where b = VUndefined and d = VUndefined
          and dc = "VObj [(js ''color'', VStr (js ''red''))]"])
       (simp_all add: baseClass_of_def dynamicClasses_of_def dynamicCss_of_def opt_member_def
          obj_get_def classes_of_def dynamic_tokens_def resolvedCss_of_def)
  moreover have "mergedStyles_of (VObj [(js ''color'', VStr (js ''red''))]) (obj_get ?p (js ''style''))
      = VObj [(js ''color'', VStr (js ''blue''))]"
    by (simp add: mergedStyles_of_def spread_def obj_get_def obj_put_def obj_keys_def)
  ultimately show "\<exists>el'. render fe tag ?o css ?p ref = Inr el'
        \<and> obj_get (el_config el') (js ''style'') = VObj [(js ''color'', VStr (js ''blue''))]"
    by (simp add: obj_get_final_config)
qed

theorem merged_style_incoming_wins_witness:
  "render no_functions (js ''div'') styled_options VUndefined example_props VNull =
     Inr \<lparr>el_type = js ''div'',
          el_config = [(js ''id'', VStr (js ''main'')), (js ''className'', VStr (js ''wide'')),
            (js ''style'', VObj [(js ''color'', VStr (js ''blue'')), (js ''margin'', VNum 0)]),
            (js ''ref'', VNull)]\<rparr>
   \<and> (\<exists>dynamicCss resolvedCss m.
       dynamicCss_of styled_options VUndefined = Inr dynamicCss
     \<and> resolvedCss_of no_functions dynamicCss example_props = Inr resolvedCss
     \<and> VObj [(js ''color'', VStr (js ''blue'')), (js ''margin'', VNum 0)] = VObj m
     \<and> map_of m = map_of (own_entries resolvedCss)
                   ++ map_of (own_entries (obj_get example_props (js ''style''))))"
proof -
  have h: "render no_functions (js ''div'') styled_options VUndefined example_props VNull =
     Inr \<lparr>el_type = js ''div'',
          el_config = [(js ''id'', VStr (js ''main'')), (js ''className'', VStr (js ''wide'')),
            (js ''style'', VObj [(js ''color'', VStr (js ''blue'')), (js ''margin'', VNum 0)]),
            (js ''ref'', VNull)]\<rparr>"
    by code_simp
  have g: "obj_get [(js ''id'', VStr (js ''main'')), (js ''className'', VStr (js ''wide'')),
            (js ''style'', VObj [(js ''color'', VStr (js ''blue'')), (js ''margin'', VNum 0)]),
            (js ''ref'', VNull)] (js ''style'')
         = VObj [(js ''color'', VStr (js ''blue'')), (js ''margin'', VNum 0)]"
    by (simp add: obj_get_def)
  from merged_style_incoming_wins [OF h] have
    "\<exists>dynamicCss resolvedCss m.
       dynamicCss_of styled_options VUndefined = Inr dynamicCss
     \<and> resolvedCss_of no_functions dynamicCss example_props = Inr resolvedCss
     \<and> VObj [(js ''color'', VStr (js ''blue'')), (js ''margin'', VNum 0)] = VObj m
     \<and> map_of m = map_of (own_entries resolvedCss)
                   ++ map_of (own_entries (obj_get example_props (js ''style'')))"
    by (simp only: element.select_convs g) blast
  with h show ?thesis by simp
qed

text \<open>
  Claim C5. When \<^verbatim>\<open>options\<close> is a structured object, the CSS source is its \<^verbatim>\<open>css\<close> field
  and the second positional parameter changes nothing in the result of the render. The
  parameter does count when \<^verbatim>\<open>options\<close> is not an object: with \<^verbatim>\<open>options\<close> omitted,
  passing \<^verbatim>\<open>{ color: "red" }\<close> or nothing gives two different elements.
\<close>

theorem css_parameter_ignored_for_object_options:
  "render fe tag (VObj kvs) css1 props ref = render fe tag (VObj kvs) css2 props ref
   \<and> dynamicCss_of (VObj kvs) css1 = Inr (obj_get kvs (js ''css''))
   \<and> render fe tag VUndefined (VObj [(js ''color'', VStr (js ''red''))]) [] ref
       \<noteq> render fe tag VUndefined VUndefined [] ref"
proof -
  have same_css: "dynamicCss_of (VObj kvs) c = Inr (obj_get kvs (js ''css''))" for c
    by (simp add: dynamicCss_of_def opt_member_def)
  then have "render fe tag (VObj kvs) css1 props ref = render fe tag (VObj kvs) css2 props ref"
    by (simp add: render_eq)
  moreover have "render fe tag VUndefined (VObj [(js ''color'', VStr (js ''red''))]) [] ref
       \<noteq> render fe tag VUndefined VUndefined [] ref"
  proof -
    have cls: "classes_of fe VUndefined VUndefined (obj_get [] (js ''className'')) [] = Inr (VStr [])"
      by (simp add: classes_of_def dynamic_tokens_def clsx_def obj_get_def add_value_def cleanClassName_def trim_def)
    have r: "render fe tag VUndefined c [] ref =
        Inr (createElement tag (final_config ref (mergedStyles_of c (obj_get [] (js ''style''))) (VStr []) []))"
      if "typeof c \<noteq> ''function''" for c
      by (rule render_Inr_I [where b = VUndefined and d = VUndefined and dc = c])
         (simp_all add: baseClass_of_def dynamicClasses_of_def dynamicCss_of_def cls
            resolvedCss_of_def that)
    have "map_of (final_config ref (mergedStyles_of (VObj [(js ''color'', VStr (js ''red''))]) (obj_get [] (js ''style''))) (VStr []) []) (js ''style'')
        \<noteq> map_of (final_config ref (mergedStyles_of VUndefined (obj_get [] (js ''style''))) (VStr []) []) (js ''style'')"
      by (simp add: map_of_final_config mergedStyles_of_def spread_def obj_keys_def
          obj_get_def obj_put_def)
    then show ?thesis
      by (auto simp: r createElement_def)
  qed
  ultimately show ?thesis using same_css by simp
qed

text \<open>
  Claim C6. The claim says that an \<^verbatim>\<open>options\<close> value that is neither a string, a function
  nor a structured object, \<^verbatim>\<open>null\<close> included, never makes the render fail. For \<^verbatim>\<open>null\<close>
  it does: \<^verbatim>\<open>typeof null\<close> is \<^verbatim>\<open>'object'\<close>, and the base class is read with
  \<^verbatim>\<open>options.base\<close>, while the two sibling resolutions read \<^verbatim>\<open>options?.classes\<close> and
  \<^verbatim>\<open>options?.css\<close>. Every render with \<^verbatim>\<open>options = null\<close> throws a \<^verbatim>\<open>TypeError\<close>.
  For the other values of the claim it holds: a number or a boolean resolves as an omitted
  \<^verbatim>\<open>options\<close> does (\<open>unrecognised_options_resolve_to_nothing\<close>,
  \<open>number_and_boolean_options_render\<close>).
\<close>

theorem null_options_throw:
  "render fe tag VNull css props ref = Inl TypeError"
  by (simp add: render_eq baseClass_of_def)

text \<open>
  Claim C7. The result of a render is a function of the options, the CSS parameter and the
  props: whatever renders came before, that is, whatever the memo cells of the instance
  hold, a render yields the element of a first render with the same inputs, so two renders
  with the same inputs yield the same element. Identity of dependencies is taken to
  imply equal content (values are not mutated between renders), and the functions of the
  configuration are pure. The memo cells are the only state the render writes.
\<close>

theorem render_depends_only_on_inputs:
  assumes "\<forall>a b. same a b \<longrightarrow> a = b"
    and "reachable same fe tag options css h1"
    and "reachable same fe tag options css h2"
  shows "map_sum id fst (RenderComponent same fe tag options css h1 props ref)
           = map_sum id fst (RenderComponent same fe tag options css h2 props ref)
       \<and> map_sum id fst (RenderComponent same fe tag options css h1 props ref)
           = render fe tag options css props ref"
proof -
  from assms have "coherent fe h1" "coherent fe h2"
    by (auto intro: reachable_coherent)
  with assms(1) show ?thesis
    by (simp add: RenderComponent_coherent(1))
qed

theorem render_depends_only_on_inputs_witness:
  "reachable (=) no_functions (js ''div'') (VStr (js ''box'')) VUndefined mount
   \<and> reachable (=) no_functions (js ''div'') (VStr (js ''box'')) VUndefined rendered_once
   \<and> h_baseClass rendered_once = Some ([VStr (js ''box'')], VStr (js ''box''))
   \<and> map_sum id fst (RenderComponent (=) no_functions (js ''div'') (VStr (js ''box'')) VUndefined
         mount example_props VNull)
       = map_sum id fst (RenderComponent (=) no_functions (js ''div'') (VStr (js ''box'')) VUndefined
         rendered_once example_props VNull)
   \<and> map_sum id fst (RenderComponent (=) no_functions (js ''div'') (VStr (js ''box'')) VUndefined
         rendered_once example_props VNull)
       = Inr \<lparr>el_type = js ''div'',
          el_config = [(js ''id'', VStr (js ''main'')), (js ''className'', VStr (js ''box wide'')),
            (js ''style'', VObj [(js ''color'', VStr (js ''blue''))]), (js ''ref'', VNull)]\<rparr>"
proof -
  let ?RC = "RenderComponent (=) no_functions (js ''div'') (VStr (js ''box'')) VUndefined"
  have s: "\<forall>a b :: jsval. a = b \<longrightarrow> a = b" by simp
  have m: "reachable (=) no_functions (js ''div'') (VStr (js ''box'')) VUndefined mount"
    by (rule reachable_mount)
  have r: "reachable (=) no_functions (js ''div'') (VStr (js ''box'')) VUndefined rendered_once"
  proof (cases "?RC mount example_props VNull")
    case (Inl e)
    with m show ?thesis by (simp add: rendered_once_def)
  next
    case (Inr p)
    obtain el h where "p = (el, h)" by (cases p)
    with Inr have "?RC mount example_props VNull = Inr (el, rendered_once)"
      by (simp add: rendered_once_def)
    with m show ?thesis by (rule reachable_render)
  qed
  have b: "h_baseClass rendered_once = Some ([VStr (js ''box'')], VStr (js ''box''))"
    by code_simp
  have h: "render no_functions (js ''div'') (VStr (js ''box'')) VUndefined example_props VNull =
     Inr \<lparr>el_type = js ''div'',
          el_config = [(js ''id'', VStr (js ''main'')), (js ''className'', VStr (js ''box wide'')),
            (js ''style'', VObj [(js ''color'', VStr (js ''blue''))]), (js ''ref'', VNull)]\<rparr>"
    by code_simp
  from render_depends_only_on_inputs [OF s m r, of example_props VNull]
    render_depends_only_on_inputs [OF s r m, of example_props VNull] h m r b
  show ?thesis by simp
qed

text \<open>
  Claim C8, as amended. When \<^verbatim>\<open>options\<close> is omitted and the props hold neither
  \<^verbatim>\<open>className\<close> nor \<^verbatim>\<open>style\<close>, the element receives the empty class name and a style
  object that holds the properties of the resolved \<^verbatim>\<open>css\<close> parameter; when the \<^verbatim>\<open>css\<close>
  parameter is omitted as well the render succeeds and the style is the empty object. In
  both cases every incoming prop whose key does not begin with \<^verbatim>\<open>$\<close> is handed on with
  its key and value, and nothing else is handed on but \<^verbatim>\<open>className\<close>, \<^verbatim>\<open>style\<close> and
  \<^verbatim>\<open>ref\<close>. The third assumption is a fact of the host: the props of a ref-forwarding
  component never hold \<^verbatim>\<open>ref\<close>, which is passed apart.
\<close>

theorem omitted_options_pass_props_through:
  assumes "js ''className'' \<notin> set (obj_keys props)"
    and "js ''style'' \<notin> set (obj_keys props)"
    and "js ''ref'' \<notin> set (obj_keys props)"
  shows "(\<forall>el. render fe tag VUndefined css props ref = Inr el \<longrightarrow>
           (\<exists>resolvedCss. resolvedCss_of fe css props = Inr resolvedCss
             \<and> obj_get (el_config el) (js ''className'') = VStr []
             \<and> obj_get (el_config el) (js ''style'') = VObj (spread [] resolvedCss)
             \<and> (\<forall>k v. map_of props k = Some v \<and> \<not> is_custom k
                   \<longrightarrow> map_of (el_config el) k = Some v)
             \<and> set (obj_keys (el_config el)) =
                 {k \<in> set (obj_keys props). \<not> is_custom k}
                 \<union> {js ''className'', js ''style'', js ''ref''}))
    \<and> (\<exists>el. render fe tag VUndefined VUndefined props ref = Inr el
          \<and> obj_get (el_config el) (js ''className'') = VStr []
          \<and> obj_get (el_config el) (js ''style'') = VObj []
          \<and> (\<forall>k v. map_of props k = Some v \<and> \<not> is_custom k
                \<longrightarrow> map_of (el_config el) k = Some v)
          \<and> set (obj_keys (el_config el)) =
              {k \<in> set (obj_keys props). \<not> is_custom k}
              \<union> {js ''className'', js ''style'', js ''ref''})"
proof -
  have cn: "obj_get props (js ''className'') = VUndefined"
    and st: "obj_get props (js ''style'') = VUndefined"
    using assms by (simp_all add: obj_get_absent)
  have cls: "cleanClassName (clsx [VUndefined, VArr [], VUndefined]) = []"
    by (simp add: clsx_def add_value_def cleanClassName_def trim_def)
  have ms: "mergedStyles_of r VUndefined = VObj (spread [] r)" for r
    by (simp add: mergedStyles_of_def spread_def obj_keys_def)
  have empty: "spread [] VUndefined = []"
    by (simp add: spread_def obj_keys_def)
  have through: "map_of (final_config ref m c props) k = Some v"
    if "map_of props k = Some v" "\<not> is_custom k" for m c k v
  proof -
    from that(1) have "k \<in> set (obj_keys props)"
      by (auto simp: obj_keys_def dest: map_of_SomeD intro: rev_image_eqI)
    with assms have "k \<noteq> js ''className''" "k \<noteq> js ''style''" "k \<noteq> js ''ref''" by auto
    with that show ?thesis by (simp add: map_of_final_config)
  qed
  have keys: "set (obj_keys (final_config ref m c props)) =
        {k \<in> set (obj_keys props). \<not> is_custom k} \<union> {js ''className'', js ''style'', js ''ref''}"
    for m c
    by (auto simp: keys_final_config)
  have general: "\<exists>r. resolvedCss_of fe css props = Inr r
      \<and> el = createElement tag (final_config ref (VObj (spread [] r)) (VStr []) props)"
    if "render fe tag VUndefined css props ref = Inr el" for el
  proof -
    from that obtain b d dc c r where *:
      "baseClass_of VUndefined = Inr b" "dynamicClasses_of VUndefined = Inr d"
      "dynamicCss_of VUndefined css = Inr dc"
      "classes_of fe b d (obj_get props (js ''className'')) props = Inr c"
      "resolvedCss_of fe dc props = Inr r"
      "el = createElement tag
            (final_config ref (mergedStyles_of r (obj_get props (js ''style''))) c props)"
      by (rule render_Inr_D)
    from *(1-3) have "b = VUndefined" "d = VUndefined" "dc = css"
      by (simp_all add: baseClass_of_def dynamicClasses_of_def dynamicCss_of_def)
    with * show ?thesis
      by (simp add: classes_of_def dynamic_tokens_def cn st cls ms)
  qed
  have first: "\<forall>el. render fe tag VUndefined css props ref = Inr el \<longrightarrow>
           (\<exists>resolvedCss. resolvedCss_of fe css props = Inr resolvedCss
             \<and> obj_get (el_config el) (js ''className'') = VStr []
             \<and> obj_get (el_config el) (js ''style'') = VObj (spread [] resolvedCss)
             \<and> (\<forall>k v. map_of props k = Some v \<and> \<not> is_custom k
                   \<longrightarrow> map_of (el_config el) k = Some v)
             \<and> set (obj_keys (el_config el)) =
                 {k \<in> set (obj_keys props). \<not> is_custom k}
                 \<union> {js ''className'', js ''style'', js ''ref''})"
  proof (intro allI impI)
    fix el
    assume "render fe tag VUndefined css props ref = Inr el"
    then obtain r where r: "resolvedCss_of fe css props = Inr r"
      and el: "el = createElement tag (final_config ref (VObj (spread [] r)) (VStr []) props)"
      using general by blast
    show "\<exists>resolvedCss. resolvedCss_of fe css props = Inr resolvedCss
             \<and> obj_get (el_config el) (js ''className'') = VStr []
             \<and> obj_get (el_config el) (js ''style'') = VObj (spread [] resolvedCss)
             \<and> (\<forall>k v. map_of props k = Some v \<and> \<not> is_custom k
                   \<longrightarrow> map_of (el_config el) k = Some v)
             \<and> set (obj_keys (el_config el)) =
                 {k \<in> set (obj_keys props). \<not> is_custom k}
                 \<union> {js ''className'', js ''style'', js ''ref''}"
      using r through keys by (intro exI [of _ r]) (simp add: el obj_get_final_config)
  qed
  have "render fe tag VUndefined VUndefined props ref =
      Inr (createElement tag (final_config ref (VObj []) (VStr []) props))"
    by (simp add: render_no_configuration cn st cls ms empty)
  then have second: "\<exists>el. render fe tag VUndefined VUndefined props ref = Inr el
          \<and> obj_get (el_config el) (js ''className'') = VStr []
          \<and> obj_get (el_config el) (js ''style'') = VObj []
          \<and> (\<forall>k v. map_of props k = Some v \<and> \<not> is_custom k
                \<longrightarrow> map_of (el_config el) k = Some v)
          \<and> set (obj_keys (el_config el)) =
              {k \<in> set (obj_keys props). \<not> is_custom k}
              \<union> {js ''className'', js ''style'', js ''ref''}"
    using through keys by (simp add: obj_get_final_config)
  from first second show ?thesis by (rule conjI)
qed

theorem omitted_options_pass_props_through_witness:
  "js ''className'' \<notin> set (obj_keys plain_props)
   \<and> js ''style'' \<notin> set (obj_keys plain_props)
   \<and> js ''ref'' \<notin> set (obj_keys plain_props)
   \<and> render no_functions (js ''div'') VUndefined VUndefined plain_props VNull =
       Inr \<lparr>el_type = js ''div'',
          el_config = [(js ''id'', VStr (js ''main'')), (js ''tabIndex'', VNum 0),
            (js ''className'', VStr []), (js ''style'', VObj []), (js ''ref'', VNull)]\<rparr>
   \<and> (\<exists>el. render no_functions (js ''div'') VUndefined VUndefined plain_props VNull = Inr el
        \<and> obj_get (el_config el) (js ''className'') = VStr []
        \<and> obj_get (el_config el) (js ''style'') = VObj []
        \<and> map_of (el_config el) (js ''id'') = Some (VStr (js ''main''))
        \<and> map_of (el_config el) (js ''tabIndex'') = Some (VNum 0))
   \<and> render no_functions (js ''div'') VUndefined (VObj [(js ''color'', VStr (js ''red''))])
         plain_props VNull =
       Inr \<lparr>el_type = js ''div'',
          el_config = [(js ''id'', VStr (js ''main'')), (js ''tabIndex'', VNum 0),
            (js ''className'', VStr []),
            (js ''style'', VObj [(js ''color'', VStr (js ''red''))]), (js ''ref'', VNull)]\<rparr>
   \<and> (\<exists>resolvedCss.
          resolvedCss_of no_functions (VObj [(js ''color'', VStr (js ''red''))]) plain_props
            = Inr resolvedCss
        \<and> VObj [(js ''color'', VStr (js ''red''))] = VObj (spread [] resolvedCss))"
proof -
  let ?css = "VObj [(js ''color'', VStr (js ''red''))]"
  let ?cfg = "[(js ''id'', VStr (js ''main'')), (js ''tabIndex'', VNum 0),
            (js ''className'', VStr []), (js ''style'', ?css), (js ''ref'', VNull)]"
  have h1: "js ''className'' \<notin> set (obj_keys plain_props)"
    and h2: "js ''style'' \<notin> set (obj_keys plain_props)"
    and h3: "js ''ref'' \<notin> set (obj_keys plain_props)"
    by (simp_all add: plain_props_def obj_keys_def)
  have r: "render no_functions (js ''div'') VUndefined VUndefined plain_props VNull =
       Inr \<lparr>el_type = js ''div'',
          el_config = [(js ''id'', VStr (js ''main'')), (js ''tabIndex'', VNum 0),
            (js ''className'', VStr []), (js ''style'', VObj []), (js ''ref'', VNull)]\<rparr>"
    by code_simp
  have rc: "render no_functions (js ''div'') VUndefined ?css plain_props VNull =
       Inr \<lparr>el_type = js ''div'', el_config = ?cfg\<rparr>"
    by code_simp
  have p: "map_of plain_props (js ''id'') = Some (VStr (js ''main''))"
      "map_of plain_props (js ''tabIndex'') = Some (VNum 0)"
    by (simp_all add: plain_props_def)
  have g: "obj_get ?cfg (js ''style'') = ?css"
    by (simp add: obj_get_def)
  note t = omitted_options_pass_props_through [OF h1 h2 h3, of no_functions "js ''div''" ?css VNull]
  from t obtain el where el:
      "render no_functions (js ''div'') VUndefined VUndefined plain_props VNull = Inr el"
      "obj_get (el_config el) (js ''className'') = VStr []"
      "obj_get (el_config el) (js ''style'') = VObj []"
      "\<forall>k v. map_of plain_props k = Some v \<and> \<not> is_custom k \<longrightarrow> map_of (el_config el) k = Some v"
    by blast
  from el(4) p have q: "map_of (el_config el) (js ''id'') = Some (VStr (js ''main''))"
      "map_of (el_config el) (js ''tabIndex'') = Some (VNum 0)"
    by simp_all
  from t rc have "\<exists>resolvedCss.
          resolvedCss_of no_functions ?css plain_props = Inr resolvedCss
        \<and> obj_get (el_config \<lparr>el_type = js ''div'', el_config = ?cfg\<rparr>) (js ''style'')
            = VObj (spread [] resolvedCss)"
    by blast
  then have "\<exists>resolvedCss.
          resolvedCss_of no_functions ?css plain_props = Inr resolvedCss
        \<and> ?css = VObj (spread [] resolvedCss)"
    by (simp only: element.select_convs g)
  with el q h1 h2 h3 r rc show ?thesis by blast
qed

text \<open>
  The claim as it was stated promises the empty style object whenever \<^verbatim>\<open>options\<close> is
  omitted. The call \<^verbatim>\<open>createComponent('div', undefined, { color: "red" })\<close> omits
  \<^verbatim>\<open>options\<close> and passes a \<^verbatim>\<open>css\<close> object, which the code consults because \<^verbatim>\<open>options\<close>
  is not an object: rendered with props that hold neither \<^verbatim>\<open>className\<close> nor \<^verbatim>\<open>style\<close>,
  the element receives the style \<^verbatim>\<open>{ color: "red" }\<close>.
\<close>

theorem omitted_options_with_css_counterexample:
  "js ''className'' \<notin> set (obj_keys plain_props)
   \<and> js ''style'' \<notin> set (obj_keys plain_props)
   \<and> js ''ref'' \<notin> set (obj_keys plain_props)
   \<and> render no_functions (js ''div'') VUndefined (VObj [(js ''color'', VStr (js ''red''))])
         plain_props VNull =
       Inr \<lparr>el_type = js ''div'',
          el_config = [(js ''id'', VStr (js ''main'')), (js ''tabIndex'', VNum 0),
            (js ''className'', VStr []),
            (js ''style'', VObj [(js ''color'', VStr (js ''red''))]), (js ''ref'', VNull)]\<rparr>
   \<and> obj_get (el_config \<lparr>el_type = js ''div'',
          el_config = [(js ''id'', VStr (js ''main'')), (js ''tabIndex'', VNum 0),
            (js ''className'', VStr []),
            (js ''style'', VObj [(js ''color'', VStr (js ''red''))]), (js ''ref'', VNull)]\<rparr>)
         (js ''style'') \<noteq> VObj []"
proof -
  have "js ''className'' \<notin> set (obj_keys plain_props)"
    "js ''style'' \<notin> set (obj_keys plain_props)"
    "js ''ref'' \<notin> set (obj_keys plain_props)"
    by (simp_all add: plain_props_def obj_keys_def)
  moreover have "render no_functions (js ''div'') VUndefined (VObj [(js ''color'', VStr (js ''red''))])
         plain_props VNull =
       Inr \<lparr>el_type = js ''div'',
          el_config = [(js ''id'', VStr (js ''main'')), (js ''tabIndex'', VNum 0),
            (js ''className'', VStr []),
            (js ''style'', VObj [(js ''color'', VStr (js ''red''))]), (js ''ref'', VNull)]\<rparr>"
    by code_simp
  ultimately show ?thesis by (simp add: obj_get_def)
qed

text \<open>
  Claim C9. When \<^verbatim>\<open>options\<close> is a function, there is no base class, the function is the
  dynamic class source, and it is called with the full props; its result is the only
  class source of the configuration and goes, with the incoming \<^verbatim>\<open>className\<close>, into the
  joined and cleaned class name. An error thrown by the function is the outcome of the
  render. The statement gives the whole render as an equation.
\<close>

theorem function_options_supply_the_classes:
  "baseClass_of (VFn f) = Inr VUndefined
   \<and> dynamicClasses_of (VFn f) = Inr (VFn f)
   \<and> render fe tag (VFn f) css props ref =
       bind_err (fe f (VObj props)) (\<lambda>tokens.
       bind_err (resolvedCss_of fe css props) (\<lambda>resolvedCss.
         Inr (createElement tag (final_config ref
           (mergedStyles_of resolvedCss (obj_get props (js ''style'')))
           (VStr (cleanClassName (clsx [VUndefined, tokens, obj_get props (js ''className'')])))
           props))))"
  by (simp add: render_eq baseClass_of_def dynamicClasses_of_def dynamicCss_of_def
      classes_of_def dynamic_tokens_def final_config_def bind_err_def split: sum.splits)

text \<open>
  Claim C10. The element always receives a \<^verbatim>\<open>className\<close> entry that is the computed class
  name, a string, and a \<^verbatim>\<open>style\<close> entry that is the merged style, an object, and it
  receives one entry of each; the incoming \<^verbatim>\<open>className\<close> and \<^verbatim>\<open>style\<close> are not among the
  rest props, so they are never handed on as they came.
\<close>

theorem className_and_style_always_computed:
  assumes "render fe tag options css props ref = Inr el"
  shows "\<exists>baseClass dynamicClasses dynamicCss resolvedCss s m.
      baseClass_of options = Inr baseClass
    \<and> dynamicClasses_of options = Inr dynamicClasses
    \<and> dynamicCss_of options css = Inr dynamicCss
    \<and> resolvedCss_of fe dynamicCss props = Inr resolvedCss
    \<and> classes_of fe baseClass dynamicClasses (obj_get props (js ''className'')) props = Inr (VStr s)
    \<and> mergedStyles_of resolvedCss (obj_get props (js ''style'')) = VObj m
    \<and> map_of (el_config el) (js ''className'') = Some (VStr s)
    \<and> map_of (el_config el) (js ''style'') = Some (VObj m)
    \<and> count_list (obj_keys (el_config el)) (js ''className'') = 1
    \<and> count_list (obj_keys (el_config el)) (js ''style'') = 1
    \<and> js ''className'' \<notin> set (obj_keys (obj_rest props [js ''className'', js ''style'']))
    \<and> js ''style'' \<notin> set (obj_keys (obj_rest props [js ''className'', js ''style'']))"
proof -
  from assms obtain b d dc cls r where *:
    "baseClass_of options = Inr b" "dynamicClasses_of options = Inr d"
    "dynamicCss_of options css = Inr dc"
    "classes_of fe b d (obj_get props (js ''className'')) props = Inr cls"
    "resolvedCss_of fe dc props = Inr r"
    "el = createElement tag
            (final_config ref (mergedStyles_of r (obj_get props (js ''style''))) cls props)"
    by (rule render_Inr_D)
  from *(4) obtain s where s: "cls = VStr s" using classes_of_VStr by blast
  obtain m where m: "mergedStyles_of r (obj_get props (js ''style'')) = VObj m"
    by (simp add: mergedStyles_of_def)
  have "map_of (el_config el) (js ''className'') = Some (VStr s)"
    "map_of (el_config el) (js ''style'') = Some (VObj m)"
    by (simp_all add: * s m map_of_final_config)
  moreover have "count_list (obj_keys (el_config el)) (js ''className'') = 1"
    "count_list (obj_keys (el_config el)) (js ''style'') = 1"
    by (simp_all add: * final_config_single_entries)
  moreover have "js ''className'' \<notin> set (obj_keys (obj_rest props [js ''className'', js ''style'']))"
    "js ''style'' \<notin> set (obj_keys (obj_rest props [js ''className'', js ''style'']))"
    by (simp_all add: keys_obj_rest)
  ultimately show ?thesis using * s m by blast
qed

theorem className_and_style_always_computed_witness:
  "render no_functions (js ''div'') (VStr (js ''box'')) VUndefined example_props VNull =
     Inr \<lparr>el_type = js ''div'',
          el_config = [(js ''id'', VStr (js ''main'')), (js ''className'', VStr (js ''box wide'')),
            (js ''style'', VObj [(js ''color'', VStr (js ''blue''))]), (js ''ref'', VNull)]\<rparr>
   \<and> (\<exists>baseClass dynamicClasses s m.
        baseClass_of (VStr (js ''box'')) = Inr baseClass
      \<and> dynamicClasses_of (VStr (js ''box'')) = Inr dynamicClasses
      \<and> classes_of no_functions baseClass dynamicClasses
           (obj_get example_props (js ''className'')) example_props = Inr (VStr s)
      \<and> Some (VStr (js ''box wide'')) = Some (VStr s)
      \<and> Some (VObj [(js ''color'', VStr (js ''blue''))]) = Some (VObj m))
   \<and> js ''className'' \<notin> set (obj_keys (obj_rest example_props [js ''className'', js ''style'']))
   \<and> js ''style'' \<notin> set (obj_keys (obj_rest example_props [js ''className'', js ''style'']))"
proof -
  let ?cfg = "[(js ''id'', VStr (js ''main'')), (js ''className'', VStr (js ''box wide'')),
            (js ''style'', VObj [(js ''color'', VStr (js ''blue''))]), (js ''ref'', VNull)]"
  have h: "render no_functions (js ''div'') (VStr (js ''box'')) VUndefined example_props VNull =
     Inr \<lparr>el_type = js ''div'', el_config = ?cfg\<rparr>"
    by code_simp
  have g: "map_of ?cfg (js ''className'') = Some (VStr (js ''box wide''))"
    "map_of ?cfg (js ''style'') = Some (VObj [(js ''color'', VStr (js ''blue''))])"
    by simp_all
  show ?thesis
    using h className_and_style_always_computed [OF h]
    by (simp only: element.select_convs g) blast
qed

end
